theory Spec2Isabelle
  imports Main "HOL-Library.Char_ord" "HOL-Library.List_Lexorder"
begin

section \<open>The platform\<close>

text \<open>
  The code runs on JavaScript. A \<open>Date\<close> is its time value, the milliseconds since
  1970-01-01T00:00:00Z, an \<open>int\<close>. Two things of the host are not fixed by the code and
  are parameters of the model: \<open>dateParse\<close>, the \<open>Date\<close> constructor on a string
  (\<open>None\<close> is the invalid date, whose time value is NaN), and \<open>localTZA\<close>, the offset of
  the host's local time from UTC at a time value (\<open>getFullYear\<close>, \<open>getMonth\<close> and
  \<open>getDate\<close> read local time). Numbers are \<open>int\<close>: every number the code computes with
  is an integer far below \<open>2 ^ 53\<close>.
\<close>

record platform =
  dateParse :: "string \<Rightarrow> int option"
  localTZA :: "int \<Rightarrow> int"

text \<open>
  A host for the concrete runs below: its clock is UTC and its \<open>Date\<close> constructor
  reads the timestamps the runs use.
\<close>

definition utcHost :: platform where
  "utcHost =
    \<lparr>dateParse =
       (\<lambda>s. if s = ''2025-03-10T12:00:00.000Z'' then Some 1741608000000
            else if s = ''2024-12-30T12:00:00.000Z'' then Some 1735560000000
            else None),
     localTZA = (\<lambda>t. 0)\<rparr>"

subsection \<open>Dates\<close>

text \<open>
  The functions of \<open>Date\<close> that the code calls, on time values, after the definitions of
  the language standard: \<open>Day\<close>, \<open>WeekDay\<close> (0 is Sunday), the calendar date of a day
  number and back (proleptic Gregorian calendar), \<open>MakeDay\<close>, \<open>Date.UTC\<close> (which reads a
  year from 0 to 99 as 1900 plus it) and \<open>setUTCDate\<close> (which accepts a day of the month
  outside the month and carries over). Months count from 0 in the getters and in
  \<open>MakeDay\<close>, from 1 in \<open>daysFromCivil\<close> and \<open>civilFromDays\<close>.
\<close>

definition msPerDay :: int where
  "msPerDay = 86400000"

definition Day :: "int \<Rightarrow> int" where
  "Day t = t div msPerDay"

definition WeekDay :: "int \<Rightarrow> int" where
  "WeekDay t = (Day t + 4) mod 7"

definition daysFromCivil :: "int \<Rightarrow> int \<Rightarrow> int \<Rightarrow> int" where
  "daysFromCivil y m d =
    (let y1 = (if m \<le> 2 then y - 1 else y);
         era = y1 div 400;
         yoe = y1 - era * 400;
         doy = (153 * (if m > 2 then m - 3 else m + 9) + 2) div 5 + d - 1;
         doe = yoe * 365 + yoe div 4 - yoe div 100 + doy
     in era * 146097 + doe - 719468)"

definition civilFromDays :: "int \<Rightarrow> int \<times> int \<times> int" where
  "civilFromDays z0 =
    (let z = z0 + 719468;
         era = z div 146097;
         doe = z - era * 146097;
         yoe = (doe - doe div 1460 + doe div 36524 - doe div 146096) div 365;
         y = yoe + era * 400;
         doy = doe - (365 * yoe + yoe div 4 - yoe div 100);
         mp = (5 * doy + 2) div 153;
         d = doy - (153 * mp + 2) div 5 + 1;
         m = (if mp < 10 then mp + 3 else mp - 9)
     in (if m \<le> 2 then y + 1 else y, m, d))"

definition getUTCFullYear :: "int \<Rightarrow> int" where
  "getUTCFullYear t = fst (civilFromDays (Day t))"

definition getUTCMonth :: "int \<Rightarrow> int" where
  "getUTCMonth t = fst (snd (civilFromDays (Day t))) - 1"

definition getUTCDate :: "int \<Rightarrow> int" where
  "getUTCDate t = snd (snd (civilFromDays (Day t)))"

definition getUTCDay :: "int \<Rightarrow> int" where
  "getUTCDay t = WeekDay t"

definition MakeDay :: "int \<Rightarrow> int \<Rightarrow> int \<Rightarrow> int" where
  "MakeDay year month date =
    daysFromCivil (year + month div 12) (month mod 12 + 1) 1 + date - 1"

definition Date_UTC :: "int \<Rightarrow> int \<Rightarrow> int \<Rightarrow> int" where
  "Date_UTC year month date =
    MakeDay (if 0 \<le> year \<and> year \<le> 99 then 1900 + year else year) month date * msPerDay"

definition setUTCDate :: "int \<Rightarrow> int \<Rightarrow> int" where
  "setUTCDate t date =
    MakeDay (getUTCFullYear t) (getUTCMonth t) date * msPerDay + t mod msPerDay"

subsection \<open>Numbers as text\<close>

text \<open>\<open>Number.prototype.toString\<close> on an integer, and \<open>String.prototype.padStart\<close>.\<close>

fun digits :: "nat \<Rightarrow> string" where
  "digits n =
    (if n < 10 then [''0123456789'' ! n]
     else digits (n div 10) @ [''0123456789'' ! (n mod 10)])"

declare digits.simps [simp del]

definition numberToString :: "int \<Rightarrow> string" where
  "numberToString n = (if n < 0 then CHR ''-'' # digits (nat (- n)) else digits (nat n))"

definition padStart :: "string \<Rightarrow> nat \<Rightarrow> char \<Rightarrow> string" where
  "padStart s n c = replicate (n - length s) c @ s"

section \<open>The period resolver (core/utils)\<close>

text \<open>
  \<open>getISOWeekNumber\<close> reads the local calendar date of its argument, moves to the
  Thursday of that date's week and counts the weeks from the first of January of the
  Thursday's year. \<open>Math.ceil(((d - yearStart) / 86400000 + 1) / 7)\<close> is the ceiling of
  \<open>(d - yearStart + 86400000) / (7 * 86400000)\<close>, written with integer division.
\<close>

definition getISOWeekNumber :: "platform \<Rightarrow> int \<Rightarrow> int" where
  "getISOWeekNumber pf date =
    (let local = date + localTZA pf date;
         d = Date_UTC (getUTCFullYear local) (getUTCMonth local) (getUTCDate local);
         d = setUTCDate d (getUTCDate d + 4 - (if getUTCDay d = 0 then 7 else getUTCDay d));
         yearStart = Date_UTC (getUTCFullYear d) 0 1
     in - ((- ((d - yearStart) + msPerDay)) div (7 * msPerDay)))"

record TimePeriodIds =
  daily :: string
  weekly :: string

text \<open>
  \<open>getTimePeriodIds\<close>: \<open>clock\<close> is the time value of \<open>new Date()\<close>, read when the
  timestamp is absent or empty. On an invalid date every getter returns NaN, which prints
  as \<open>NaN\<close>.
\<close>

definition getTimePeriodIds :: "platform \<Rightarrow> int \<Rightarrow> string option \<Rightarrow> TimePeriodIds" where
  "getTimePeriodIds pf clock timestamp =
    (case (case timestamp of
             None \<Rightarrow> Some clock
           | Some s \<Rightarrow> if s = [] then Some clock else dateParse pf s) of
       None \<Rightarrow> \<lparr>daily = ''NaN-NaN-NaN'', weekly = ''NaN-WNaN''\<rparr>
     | Some date \<Rightarrow>
         (let year = getUTCFullYear date;
              month = padStart (numberToString (getUTCMonth date + 1)) 2 (CHR ''0'');
              day = padStart (numberToString (getUTCDate date)) 2 (CHR ''0'');
              dailyId = numberToString year @ ''-'' @ month @ ''-'' @ day;
              weekNumber = getISOWeekNumber pf date;
              weeklyId = numberToString year @ ''-W''
                           @ padStart (numberToString weekNumber) 2 (CHR ''0'')
          in \<lparr>daily = dailyId, weekly = weeklyId\<rparr>))"

text \<open>
  The identifier the spec describes, for comparison: the week number as above, under the
  year of the Thursday of the timestamp's week instead of the timestamp's own year.
\<close>

definition isoWeekId :: "int \<Rightarrow> string" where
  "isoWeekId date =
    (let thursday = (Day date + 4 - (if WeekDay date = 0 then 7 else WeekDay date)) * msPerDay;
         isoYear = getUTCFullYear thursday;
         weekNumber = (Day thursday - daysFromCivil isoYear 1 1) div 7 + 1
     in numberToString isoYear @ ''-W'' @ padStart (numberToString weekNumber) 2 (CHR ''0''))"

section \<open>The event validator (match.service.ts)\<close>

text \<open>
  Every \<open>throw new Error(...)\<close> of \<open>validateAddMatchResultInput\<close> is one constructor,
  carrying the values its message prints.
\<close>

datatype RejectionReason =
    HomeTeamEmpty
  | AwayTeamEmpty
  | InvalidTeamSizes nat nat
  | InvalidScoreFormat "int list"
  | ScoreExceeds11 int int
  | TieAt10 int int
  | TieAt11 int int
  | ElevenOpponentAbove10 int int
  | TenOpponentAtLeast10 int int
  | DuplicatePlayer
  | InvalidMatchDate string

text \<open>
  Modelled from the spec: \<open>checkIfDuplicateExists\<close> of \<open>core/utils\<close> is not among the
  sources. The spec's validator admits an event with "no duplicate participants"; the
  rejection it guards reads "Duplicate player entry found".
\<close>

definition checkIfDuplicateExists :: "string list \<Rightarrow> bool" where
  "checkIfDuplicateExists ids = (\<not> distinct ids)"

text \<open>
  The arguments are typed (\<open>string[]\<close>, \<open>IFinalScore\<close>), so the \<open>Array.isArray\<close> and
  \<open>typeof\<close> tests are true of every input of the model; the score stays a list, so the
  test of its length is kept. The result \<open>Inr w\<close> is a normal return, \<open>w\<close> telling
  whether \<open>console.warn\<close> was called. \<open>matchData.matchDate\<close> is \<open>None\<close> when the
  property is absent; the empty string is falsy as well.
\<close>

definition validateAddMatchResultInput ::
  "platform \<Rightarrow> string list \<Rightarrow> string list \<Rightarrow> int list \<Rightarrow> string option \<Rightarrow> RejectionReason + bool"
where
  "validateAddMatchResultInput pf homeTeamIds awayTeamIds finalScore matchDate =
    (if length homeTeamIds = 0 then Inl HomeTeamEmpty
     else if length awayTeamIds = 0 then Inl AwayTeamEmpty
     else if length homeTeamIds \<noteq> length awayTeamIds \<or> length homeTeamIds > 2
               \<or> length homeTeamIds < 1
       then Inl (InvalidTeamSizes (length homeTeamIds) (length awayTeamIds))
     else if length finalScore \<noteq> 2 \<or> finalScore ! 0 < 0 \<or> finalScore ! 1 < 0
       then Inl (InvalidScoreFormat finalScore)
     else
       let score1 = finalScore ! 0; score2 = finalScore ! 1 in
       if score1 > 11 \<or> score2 > 11 then Inl (ScoreExceeds11 score1 score2)
       else
         let maxScore = max score1 score2; minScore = min score1 score2 in
         (case (if maxScore < 10 then Inr (score1 \<noteq> 0 \<or> score2 \<noteq> 0)
                else if maxScore = 10 \<and> minScore = 10 then Inl (TieAt10 score1 score2)
                else if maxScore = 11 \<and> minScore = 11 then Inl (TieAt11 score1 score2)
                else if maxScore = 11 \<and> minScore > 10
                  then Inl (ElevenOpponentAbove10 score1 score2)
                else if maxScore = 10 \<and> minScore \<ge> 10
                  then Inl (TenOpponentAtLeast10 score1 score2)
                else Inr False) of
            Inl e \<Rightarrow> Inl e
          | Inr warned \<Rightarrow>
              if checkIfDuplicateExists (homeTeamIds @ awayTeamIds) then Inl DuplicatePlayer
              else (case matchDate of
                      None \<Rightarrow> Inr warned
                    | Some s \<Rightarrow>
                        if s \<noteq> [] \<and> dateParse pf s = None then Inl (InvalidMatchDate s)
                        else Inr warned)))"

section \<open>Matches, flags and per-player results\<close>

text \<open>
  \<open>IMatchResult\<close> as the code reads it: \<open>matchDate\<close> is \<open>None\<close> when the property is
  absent, \<open>toto\<close> is 1 when the home team won, 2 when the away team won.
\<close>

record IMatchResult =
  matchDate :: "string option"
  finalScore :: "int list"
  toto :: int
  homeTeamIds :: "string list"
  awayTeamIds :: "string list"

datatype EntityType = PLAYER

record IEntityMatchResult =
  entityMatchDate :: string
  entityType :: EntityType
  entityKey :: string
  didWin :: bool
  didLose :: bool
  hasHumiliation :: bool
  hasSuckerPunch :: bool

record ITimeBasedPlayerStatsIncrements =
  matchesPlayed :: int
  wins :: int
  losses :: int
  goalsFor :: int
  goalsAgainst :: int
  humiliationsInflicted :: int
  humiliationsSuffered :: int
  suckerPunchesDealt :: int
  suckerPunchesReceived :: int

text \<open>
  Modelled from the spec: \<open>checkFlawlessVictory\<close> and \<open>checkSuckerPunch\<close> of
  \<open>core/utils\<close> are not among the sources. The spec: a humiliation is "a win where the
  loser scored zero against a winning score of 10 or 11"; a sucker-punch is "a win with a
  final score of 11".
\<close>

definition checkFlawlessVictory :: "int list \<Rightarrow> bool" where
  "checkFlawlessVictory score =
    (case score of
       [a, b] \<Rightarrow> min a b = 0 \<and> (max a b = 10 \<or> max a b = 11)
     | _ \<Rightarrow> False)"

definition checkSuckerPunch :: "int list \<Rightarrow> bool" where
  "checkSuckerPunch score = (case score of [a, b] \<Rightarrow> max a b = 11 | _ \<Rightarrow> False)"

text \<open>
  \<open>typeof finalScore[i] === 'number' ? finalScore[i] : 0\<close>: a read beyond the end of the
  array is \<open>undefined\<close>, and gives 0.
\<close>

definition numberAt :: "int list \<Rightarrow> nat \<Rightarrow> int" where
  "numberAt score i = (if i < length score then score ! i else 0)"

text \<open>The winners and losers of \<open>generateStats\<close> (lines 63 to 73).\<close>

definition winners :: "IMatchResult \<Rightarrow> string list" where
  "winners matchResult =
    (if toto matchResult = 1 then homeTeamIds matchResult
     else if toto matchResult = 2 then awayTeamIds matchResult
     else [])"

definition losers :: "IMatchResult \<Rightarrow> string list" where
  "losers matchResult =
    (if toto matchResult = 1 then awayTeamIds matchResult
     else if toto matchResult = 2 then homeTeamIds matchResult
     else [])"

text \<open>
  The \<open>entityMatchResult\<close> that the write phase of \<open>generateStats\<close> builds for one
  player (lines 135 to 143); both flags are computed once for the match.
\<close>

definition entityMatchResult :: "string \<Rightarrow> IMatchResult \<Rightarrow> string \<Rightarrow> IEntityMatchResult" where
  "entityMatchResult nowISO matchResult playerId =
    \<lparr>entityMatchDate =
       (case matchDate matchResult of
          None \<Rightarrow> nowISO
        | Some d \<Rightarrow> if d = [] then nowISO else d),
     entityType = PLAYER,
     entityKey = playerId,
     didWin = (playerId \<in> set (winners matchResult)),
     didLose = (playerId \<in> set (losers matchResult)),
     hasHumiliation = checkFlawlessVictory (finalScore matchResult),
     hasSuckerPunch = checkSuckerPunch (finalScore matchResult)\<rparr>"

section \<open>The increment calculator (StatsService)\<close>

text \<open>
  A Firestore document is a map from field names to values. The update data of a
  merging \<open>set\<close> holds, for a field, either \<open>FieldValue.increment(n)\<close> or a plain value.
\<close>

datatype FieldVal = Num int | Str string

datatype FieldOp = Increment int | SetTo FieldVal

type_synonym doc = "string \<rightharpoonup> FieldVal"

type_synonym IMetrics = "string \<rightharpoonup> FieldOp"

definition calculateMetrics ::
  "string \<Rightarrow> IEntityMatchResult \<Rightarrow> IMatchResult \<Rightarrow> int \<Rightarrow> IMetrics"
where
  "calculateMetrics now entityResult matchResult multiplier =
    (let playerTeamIndex =
           (if entityKey entityResult \<in> set (homeTeamIds matchResult) then 0 else 1 :: nat);
         goalsFor = numberAt (finalScore matchResult) playerTeamIndex;
         goalsAgainst =
           numberAt (finalScore matchResult) (if playerTeamIndex = 0 then 1 else 0);
         metrics = Map.empty
           (''totalMatches'' \<mapsto> Increment (multiplier * 1),
            ''totalGoalsFor'' \<mapsto> Increment (goalsFor * multiplier),
            ''totalGoalsAgainst'' \<mapsto> Increment (goalsAgainst * multiplier),
            ''dateLastMatch'' \<mapsto> SetTo (Str now))
     in
       if didWin entityResult then
         (let metrics = metrics
                (''totalWins'' \<mapsto> Increment (multiplier * 1),
                 ''dateLastWin'' \<mapsto> SetTo (Str now),
                 ''winStreak'' \<mapsto> Increment (multiplier * 1),
                 ''loseStreak'' \<mapsto> SetTo (Num 0));
              metrics =
                (if hasHumiliation entityResult
                 then metrics
                   (''totalFlawlessVictories'' \<mapsto> Increment (multiplier * 1),
                    ''dateLastFlawlessVictory'' \<mapsto> SetTo (Str now))
                 else metrics)
          in if hasSuckerPunch entityResult
             then metrics(''totalSuckerpunches'' \<mapsto> Increment (multiplier * 1))
             else metrics)
       else if didLose entityResult then
         (let metrics = metrics
                (''totalLosses'' \<mapsto> Increment (multiplier * 1),
                 ''dateLastLose'' \<mapsto> SetTo (Str now),
                 ''loseStreak'' \<mapsto> Increment (multiplier * 1),
                 ''winStreak'' \<mapsto> SetTo (Num 0));
              metrics =
                (if hasHumiliation entityResult
                 then metrics
                   (''totalHumiliations'' \<mapsto> Increment (multiplier * 1),
                    ''dateLastHumiliation'' \<mapsto> SetTo (Str now))
                 else metrics)
          in if hasSuckerPunch entityResult
             then metrics(''totalKnockouts'' \<mapsto> Increment (multiplier * 1))
             else metrics)
       else metrics(''winStreak'' \<mapsto> SetTo (Num 0), ''loseStreak'' \<mapsto> SetTo (Num 0)))"

definition calculateTimeBasedIncrements ::
  "IEntityMatchResult \<Rightarrow> IMatchResult \<Rightarrow> int \<Rightarrow> ITimeBasedPlayerStatsIncrements"
where
  "calculateTimeBasedIncrements entityResult matchResult multiplier =
    (let increments =
           \<lparr>matchesPlayed = 1 * multiplier, wins = 0, losses = 0, goalsFor = 0,
            goalsAgainst = 0, humiliationsInflicted = 0, humiliationsSuffered = 0,
            suckerPunchesDealt = 0, suckerPunchesReceived = 0\<rparr>;
         playerTeamIndex =
           (if entityKey entityResult \<in> set (homeTeamIds matchResult) then 0 else 1 :: nat);
         scoreFor = numberAt (finalScore matchResult) playerTeamIndex;
         scoreAgainst =
           numberAt (finalScore matchResult) (if playerTeamIndex = 0 then 1 else 0);
         increments = increments
           \<lparr>goalsFor := scoreFor * multiplier, goalsAgainst := scoreAgainst * multiplier\<rparr>
     in
       if didWin entityResult then
         (let increments = increments\<lparr>wins := 1 * multiplier\<rparr>;
              increments =
                (if hasHumiliation entityResult
                 then increments\<lparr>humiliationsInflicted := 1 * multiplier\<rparr>
                 else increments)
          in if hasSuckerPunch entityResult
             then increments\<lparr>suckerPunchesDealt := 1 * multiplier\<rparr>
             else increments)
       else if didLose entityResult then
         (let increments = increments\<lparr>losses := 1 * multiplier\<rparr>;
              increments =
                (if hasHumiliation entityResult
                 then increments\<lparr>humiliationsSuffered := 1 * multiplier\<rparr>
                 else increments)
          in if hasSuckerPunch entityResult
             then increments\<lparr>suckerPunchesReceived := 1 * multiplier\<rparr>
             else increments)
       else increments)"

text \<open>The amount a field of the update data adds: that of its increment, if it is one.\<close>

definition incrementOf :: "FieldOp option \<Rightarrow> int" where
  "incrementOf x = (case x of Some (Increment n) \<Rightarrow> n | _ \<Rightarrow> 0)"

section \<open>The document store\<close>

text \<open>
  The store maps a document reference to a document. The code addresses two kinds of
  document: \<open>players/{id}\<close> and \<open>players/{id}/stats/{daily|weekly}/records/{timeframeId}\<close>
  (an id is one path segment). A snapshot carries its reference and the data read;
  \<open>exists\<close> is \<open>snapData \<noteq> None\<close>. A transaction or batch stages writes and applies them
  in order when it commits.
\<close>

datatype PeriodType = Daily | Weekly

definition periodTypeName :: "PeriodType \<Rightarrow> string" where
  "periodTypeName t = (case t of Daily \<Rightarrow> ''daily'' | Weekly \<Rightarrow> ''weekly'')"

datatype DocumentReference = PlayerRef string | StatsRef string PeriodType string

type_synonym store = "DocumentReference \<rightharpoonup> doc"

record DocumentSnapshot =
  ref :: DocumentReference
  snapData :: "doc option"

datatype Write = WriteSet DocumentReference doc | WriteSetMerge DocumentReference IMetrics

definition getAll :: "store \<Rightarrow> DocumentReference list \<Rightarrow> DocumentSnapshot list" where
  "getAll db refs = map (\<lambda>r. \<lparr>ref = r, snapData = db r\<rparr>) refs"

text \<open>
  A numeric field read as \<open>x || 0\<close>: 0 when the field is absent. The numeric fields hold
  numbers, as the interfaces declare; the model reads anything else as 0 too, which is
  also what \<open>FieldValue.increment\<close> starts from on a field that is absent or not a number.
\<close>

definition numberOf :: "FieldVal option \<Rightarrow> int" where
  "numberOf x = (case x of Some (Num n) \<Rightarrow> n | _ \<Rightarrow> 0)"

definition fieldOf :: "doc option \<Rightarrow> string \<Rightarrow> FieldVal option" where
  "fieldOf d k = (case d of None \<Rightarrow> None | Some e \<Rightarrow> e k)"

text \<open>\<open>set(ref, data, {merge: true})\<close>: the fields of \<open>data\<close> are written, the others kept.\<close>

definition mergeInto :: "doc option \<Rightarrow> IMetrics \<Rightarrow> doc" where
  "mergeInto old data =
    (\<lambda>k. case data k of
            None \<Rightarrow> fieldOf old k
          | Some (Increment n) \<Rightarrow> Some (Num (numberOf (fieldOf old k) + n))
          | Some (SetTo v) \<Rightarrow> Some v)"

fun applyWrite :: "Write \<Rightarrow> store \<Rightarrow> store" where
  "applyWrite (WriteSet r d) db = db(r \<mapsto> d)"
| "applyWrite (WriteSetMerge r data) db = db(r \<mapsto> mergeInto (db r) data)"

definition commit :: "Write list \<Rightarrow> store \<Rightarrow> store" where
  "commit writes db = fold applyWrite writes db"

section \<open>The aggregation engine (StatsService.generateStats)\<close>

definition updateTimeBasedStatsDoc ::
  "DocumentReference \<Rightarrow> DocumentSnapshot \<Rightarrow> string \<Rightarrow> string \<Rightarrow> PeriodType
     \<Rightarrow> ITimeBasedPlayerStatsIncrements \<Rightarrow> string \<Rightarrow> Write"
where
  "updateTimeBasedStatsDoc statsDocRef statsDocSnapshot playerId timeframeId periodType
       increments timestamp =
    (case snapData statsDocSnapshot of
       Some existingStats \<Rightarrow>
         WriteSet statsDocRef (existingStats
           (''matchesPlayed'' \<mapsto>
              Num (numberOf (existingStats ''matchesPlayed'') + matchesPlayed increments),
            ''wins'' \<mapsto> Num (numberOf (existingStats ''wins'') + wins increments),
            ''losses'' \<mapsto> Num (numberOf (existingStats ''losses'') + losses increments),
            ''goalsFor'' \<mapsto> Num (numberOf (existingStats ''goalsFor'') + goalsFor increments),
            ''goalsAgainst'' \<mapsto>
              Num (numberOf (existingStats ''goalsAgainst'') + goalsAgainst increments),
            ''humiliationsInflicted'' \<mapsto>
              Num (numberOf (existingStats ''humiliationsInflicted'')
                    + humiliationsInflicted increments),
            ''humiliationsSuffered'' \<mapsto>
              Num (numberOf (existingStats ''humiliationsSuffered'')
                    + humiliationsSuffered increments),
            ''suckerPunchesDealt'' \<mapsto>
              Num (numberOf (existingStats ''suckerPunchesDealt'')
                    + suckerPunchesDealt increments),
            ''suckerPunchesReceived'' \<mapsto>
              Num (numberOf (existingStats ''suckerPunchesReceived'')
                    + suckerPunchesReceived increments),
            ''lastUpdatedAt'' \<mapsto> Str timestamp))
     | None \<Rightarrow>
         WriteSet statsDocRef (Map.empty
           (''playerId'' \<mapsto> Str playerId,
            ''timeframeId'' \<mapsto> Str timeframeId,
            ''periodType'' \<mapsto> Str (periodTypeName periodType),
            ''matchesPlayed'' \<mapsto> Num (matchesPlayed increments),
            ''wins'' \<mapsto> Num (wins increments),
            ''losses'' \<mapsto> Num (losses increments),
            ''goalsFor'' \<mapsto> Num (goalsFor increments),
            ''goalsAgainst'' \<mapsto> Num (goalsAgainst increments),
            ''humiliationsInflicted'' \<mapsto> Num (humiliationsInflicted increments),
            ''humiliationsSuffered'' \<mapsto> Num (humiliationsSuffered increments),
            ''suckerPunchesDealt'' \<mapsto> Num (suckerPunchesDealt increments),
            ''suckerPunchesReceived'' \<mapsto> Num (suckerPunchesReceived increments),
            ''firstActivityAt'' \<mapsto> Str timestamp,
            ''lastUpdatedAt'' \<mapsto> Str timestamp)))"

text \<open>
  The clock readings of one call of \<open>generateStats\<close>: \<open>nowISO\<close> (line 80), the reading
  of \<open>calculateMetrics\<close> in each pass of the write loop (line 238), and the time value
  \<open>getTimePeriodIds\<close> would read for an empty timestamp.
\<close>

record clockReadings =
  nowISO :: string
  metricsNow :: "nat \<Rightarrow> string"
  periodNow :: int

record playerRefs =
  playerRef :: DocumentReference
  dailyRef :: DocumentReference
  weeklyRef :: DocumentReference

text \<open>A \<open>for ... of\<close> loop whose body stages writes; the body is told the pass it is in.\<close>

fun forEachIndexed :: "(nat \<Rightarrow> 'a \<Rightarrow> 'b list) \<Rightarrow> nat \<Rightarrow> 'a list \<Rightarrow> 'b list" where
  "forEachIndexed body i [] = []"
| "forEachIndexed body i (x # xs) = body i x @ forEachIndexed body (Suc i) xs"

text \<open>
  One pass of the write loop of \<open>generateStats\<close> (lines 118 to 178): a player without
  references or without both snapshots is skipped.
\<close>

definition writePlayer ::
  "clockReadings \<Rightarrow> IMatchResult \<Rightarrow> int \<Rightarrow> TimePeriodIds \<Rightarrow> (string \<rightharpoonup> playerRefs)
     \<Rightarrow> (DocumentReference \<rightharpoonup> DocumentSnapshot) \<Rightarrow> nat \<Rightarrow> string \<Rightarrow> Write list"
where
  "writePlayer clk matchResult multiplier timePeriodIds refMap snapshotMap i playerId =
    (case refMap playerId of
       None \<Rightarrow> []
     | Some refs \<Rightarrow>
         (case snapshotMap (dailyRef refs) of
            None \<Rightarrow> []
          | Some dailySnapshot \<Rightarrow>
              (case snapshotMap (weeklyRef refs) of
                 None \<Rightarrow> []
               | Some weeklySnapshot \<Rightarrow>
                   (let entity = entityMatchResult (nowISO clk) matchResult playerId;
                        playerStatsIncrements =
                          calculateMetrics (metricsNow clk i) entity matchResult multiplier;
                        timeBasedIncrements =
                          calculateTimeBasedIncrements entity matchResult multiplier;
                        updateData = playerStatsIncrements
                          (''modificationDate'' \<mapsto> SetTo (Str (nowISO clk)))
                    in [WriteSetMerge (playerRef refs) updateData,
                        updateTimeBasedStatsDoc (dailyRef refs) dailySnapshot playerId
                          (daily timePeriodIds) Daily timeBasedIncrements (nowISO clk),
                        updateTimeBasedStatsDoc (weeklyRef refs) weeklySnapshot playerId
                          (weekly timePeriodIds) Weekly timeBasedIncrements (nowISO clk)]))))"

text \<open>
  \<open>generateStats\<close> returns the writes it stages on the transaction; \<open>db\<close> is the store
  the transaction reads. \<open>opts.multiplier || 1\<close>: an absent multiplier and 0 both give 1.
\<close>

definition generateStats ::
  "platform \<Rightarrow> clockReadings \<Rightarrow> store \<Rightarrow> IMatchResult \<Rightarrow> int option \<Rightarrow> Write list"
where
  "generateStats pf clk db matchResult optMultiplier =
    (let allPlayerIds = homeTeamIds matchResult @ awayTeamIds matchResult;
         multiplier = (case optMultiplier of None \<Rightarrow> 1 | Some k \<Rightarrow> if k = 0 then 1 else k);
         timePeriodIds = getTimePeriodIds pf (periodNow clk)
           (Some (case matchDate matchResult of
                    None \<Rightarrow> nowISO clk
                  | Some d \<Rightarrow> if d = [] then nowISO clk else d));
         refMap = fold
           (\<lambda>playerId m. m(playerId \<mapsto>
              \<lparr>playerRef = PlayerRef playerId,
               dailyRef = StatsRef playerId Daily (daily timePeriodIds),
               weeklyRef = StatsRef playerId Weekly (weekly timePeriodIds)\<rparr>))
           allPlayerIds Map.empty;
         refsToRead = concat (map
           (\<lambda>playerId. [StatsRef playerId Daily (daily timePeriodIds),
                       StatsRef playerId Weekly (weekly timePeriodIds)])
           allPlayerIds);
         allSnapshots = getAll db refsToRead;
         snapshotMap = fold (\<lambda>snap m. m(ref snap \<mapsto> snap)) allSnapshots Map.empty
     in forEachIndexed
          (writePlayer clk matchResult multiplier timePeriodIds refMap snapshotMap)
          0 allPlayerIds)"

text \<open>The engine's transactions, one after the other, each committed.\<close>

fun applyEvents ::
  "platform \<Rightarrow> (clockReadings \<times> IMatchResult \<times> int option) list \<Rightarrow> store \<Rightarrow> store"
where
  "applyEvents pf [] db = db"
| "applyEvents pf ((clk, matchResult, optMultiplier) # rest) db =
     applyEvents pf rest (commit (generateStats pf clk db matchResult optMultiplier) db)"

section \<open>The streak maintainer (StatsService.batchUpdateStreaks)\<close>

text \<open>
  The loop over the snapshots (lines 194 to 223): the state is the batch and
  \<open>maxStreakChanged\<close>.
\<close>

fun streakLoop :: "DocumentSnapshot list \<Rightarrow> Write list \<times> bool \<Rightarrow> Write list \<times> bool" where
  "streakLoop [] acc = acc"
| "streakLoop (snapshot # rest) (batch, maxStreakChanged) =
    (case snapData snapshot of
       None \<Rightarrow> streakLoop rest (batch, maxStreakChanged)
     | Some data \<Rightarrow>
         (let currentWinStreak = numberOf (data ''winStreak'');
              highestWinStreak = numberOf (data ''highestWinStreak'');
              currentLoseStreak = numberOf (data ''loseStreak'');
              highestLoseStreak = numberOf (data ''highestLoseStreak'');
              (maxStreakChanged, needsUpdate, updatePayload) =
                (if currentWinStreak > highestWinStreak
                 then (True, True,
                       Map.empty(''highestWinStreak'' \<mapsto> SetTo (Num currentWinStreak)))
                 else (maxStreakChanged, False, Map.empty));
              (maxStreakChanged, needsUpdate, updatePayload) =
                (if currentLoseStreak > highestLoseStreak
                 then (True, True,
                       updatePayload(''highestLoseStreak'' \<mapsto> SetTo (Num currentLoseStreak)))
                 else (maxStreakChanged, needsUpdate, updatePayload))
          in streakLoop rest
               (if needsUpdate then batch @ [WriteSetMerge (ref snapshot) updatePayload]
                else batch,
                maxStreakChanged)))"

text \<open>
  \<open>batchUpdateStreaks\<close>: \<open>commitOk\<close> tells whether \<open>batch.commit()\<close> succeeds; a
  failure is logged and leaves the store as it was.
\<close>

definition batchUpdateStreaks :: "bool \<Rightarrow> string list \<Rightarrow> store \<Rightarrow> store" where
  "batchUpdateStreaks commitOk playerIds db =
    (if length playerIds = 0 then db
     else
       let playerRefs = map PlayerRef playerIds;
           playerSnapshots = getAll db playerRefs;
           (batch, maxStreakChanged) = streakLoop playerSnapshots ([], False)
       in if maxStreakChanged then (if commitOk then commit batch db else db) else db)"

text \<open>Calls of the streak maintainer, one after the other.\<close>

fun promoteAll :: "(bool \<times> string list) list \<Rightarrow> store \<Rightarrow> store" where
  "promoteAll [] db = db"
| "promoteAll ((commitOk, playerIds) # rest) db =
     promoteAll rest (batchUpdateStreaks commitOk playerIds db)"

section \<open>The backfill job (backfillTimeStats)\<close>

definition MATCH_FETCH_LIMIT :: nat where
  "MATCH_FETCH_LIMIT = 500"

definition WRITE_BATCH_LIMIT :: nat where
  "WRITE_BATCH_LIMIT = 450"

text \<open>
  A JavaScript object used as a dictionary: the properties in the order of their first
  assignment. \<open>objectSet\<close> assigns a property, \<open>map_of\<close> reads one.
\<close>

fun objectSet :: "'k \<Rightarrow> 'v \<Rightarrow> ('k \<times> 'v) list \<Rightarrow> ('k \<times> 'v) list" where
  "objectSet k v [] = [(k, v)]"
| "objectSet k v ((k', v') # rest) =
     (if k' = k then (k, v) # rest else (k', v') # objectSet k v rest)"

type_synonym aggregates = "(string \<times> (string \<times> doc) list) list"

text \<open>A text field read as \<open>x || ''\<close>; the empty string is falsy.\<close>

definition textOf :: "FieldVal option \<Rightarrow> string" where
  "textOf x = (case x of Some (Str s) \<Rightarrow> s | _ \<Rightarrow> [])"

text \<open>
  \<open>new Date(a) < new Date(b)\<close>: a comparison of time values, false when one is NaN.
\<close>

definition dateBefore :: "platform \<Rightarrow> string \<Rightarrow> string \<Rightarrow> bool" where
  "dateBefore pf a b =
    (case dateParse pf a of
       None \<Rightarrow> False
     | Some x \<Rightarrow> (case dateParse pf b of None \<Rightarrow> False | Some y \<Rightarrow> x < y))"

text \<open>
  \<open>aggregateIncrements\<close>: \<open>existing\<close> is a \<open>Partial\<close>, a field map that may lack any
  field. Strings are compared as JavaScript compares them, by code units, which is the
  lexicographic order of the characters.
\<close>

definition aggregateIncrements ::
  "platform \<Rightarrow> doc \<Rightarrow> ITimeBasedPlayerStatsIncrements \<Rightarrow> string \<Rightarrow> doc"
where
  "aggregateIncrements pf existing increments matchTimestamp =
    (let firstActivity =
           (if textOf (existing ''firstActivityAt'') \<noteq> []
            then (if dateBefore pf (textOf (existing ''firstActivityAt'')) matchTimestamp
                  then textOf (existing ''firstActivityAt'')
                  else matchTimestamp)
            else matchTimestamp)
     in (Map.empty
          (''matchesPlayed'' \<mapsto>
             Num (numberOf (existing ''matchesPlayed'') + matchesPlayed increments),
           ''wins'' \<mapsto> Num (numberOf (existing ''wins'') + wins increments),
           ''losses'' \<mapsto> Num (numberOf (existing ''losses'') + losses increments),
           ''goalsFor'' \<mapsto> Num (numberOf (existing ''goalsFor'') + goalsFor increments),
           ''goalsAgainst'' \<mapsto>
             Num (numberOf (existing ''goalsAgainst'') + goalsAgainst increments),
           ''humiliationsInflicted'' \<mapsto>
             Num (numberOf (existing ''humiliationsInflicted'')
                   + humiliationsInflicted increments),
           ''humiliationsSuffered'' \<mapsto>
             Num (numberOf (existing ''humiliationsSuffered'')
                   + humiliationsSuffered increments),
           ''suckerPunchesDealt'' \<mapsto>
             Num (numberOf (existing ''suckerPunchesDealt'') + suckerPunchesDealt increments),
           ''suckerPunchesReceived'' \<mapsto>
             Num (numberOf (existing ''suckerPunchesReceived'')
                   + suckerPunchesReceived increments),
           ''firstActivityAt'' \<mapsto> Str firstActivity))
          (''lastUpdatedAt'' :=
             (if matchTimestamp > textOf (existing ''lastUpdatedAt'')
              then Some (Str matchTimestamp)
              else existing ''lastUpdatedAt'')))"

text \<open>
  Lines 462 to 467 (and 468 to 473): the entry of a player under a period is created on
  first use and replaced by the aggregate of itself and the increments.
\<close>

definition accumulate ::
  "platform \<Rightarrow> string \<Rightarrow> string \<Rightarrow> ITimeBasedPlayerStatsIncrements \<Rightarrow> string
     \<Rightarrow> aggregates \<Rightarrow> aggregates"
where
  "accumulate pf timeframeId playerId increments matchTimestamp aggs =
    (let aggs = (if map_of aggs timeframeId = None then objectSet timeframeId [] aggs
                 else aggs);
         players = (case map_of aggs timeframeId of None \<Rightarrow> [] | Some ps \<Rightarrow> ps);
         existing = (case map_of players playerId of None \<Rightarrow> Map.empty | Some e \<Rightarrow> e)
     in objectSet timeframeId
          (objectSet playerId (aggregateIncrements pf existing increments matchTimestamp)
             players)
          aggs)"

text \<open>
  The body of the loop over the matches of a page (lines 435 to 475). A match without a
  match date is skipped; the other fields the test names are present in every
  \<open>IMatchResult\<close> of the model. The job's own \<open>calculateTimeBasedIncrements\<close> is a copy
  of the service's, called with the default multiplier 1.
\<close>

definition processMatch ::
  "platform \<Rightarrow> int \<Rightarrow> IMatchResult \<Rightarrow> aggregates \<times> aggregates \<Rightarrow> aggregates \<times> aggregates"
where
  "processMatch pf clock matchResult aggs =
    (case matchDate matchResult of
       None \<Rightarrow> aggs
     | Some matchTimestamp \<Rightarrow>
         if matchTimestamp = [] then aggs
         else
           let timePeriodIds = getTimePeriodIds pf clock (Some matchTimestamp);
               allPlayerIds = homeTeamIds matchResult @ awayTeamIds matchResult;
               winners = (if toto matchResult = 1 then homeTeamIds matchResult
                          else if toto matchResult = 2 then awayTeamIds matchResult else []);
               losers = (if toto matchResult = 1 then awayTeamIds matchResult
                         else if toto matchResult = 2 then homeTeamIds matchResult else []);
               hasHumiliation = checkFlawlessVictory (finalScore matchResult);
               hasSuckerPunch = checkSuckerPunch (finalScore matchResult)
           in fold
                (\<lambda>playerId (dailyAggregates, weeklyAggregates).
                   let entityMatchResult =
                         \<lparr>entityMatchDate = matchTimestamp, entityType = PLAYER,
                          entityKey = playerId, didWin = (playerId \<in> set winners),
                          didLose = (playerId \<in> set losers),
                          hasHumiliation = hasHumiliation, hasSuckerPunch = hasSuckerPunch\<rparr>;
                       increments = calculateTimeBasedIncrements entityMatchResult matchResult 1
                   in (accumulate pf (daily timePeriodIds) playerId increments matchTimestamp
                         dailyAggregates,
                       accumulate pf (weekly timePeriodIds) playerId increments matchTimestamp
                         weeklyAggregates))
                allPlayerIds aggs)"

text \<open>
  The fetch loop (lines 411 to 486). \<open>remaining\<close> is what the query has yet to return:
  the matches of the date range in the order of the query, from the cursor on. A page is
  the next \<open>MATCH_FETCH_LIMIT\<close> of them, and the loop ends on an empty page.
\<close>

function fetchLoop ::
  "platform \<Rightarrow> int \<Rightarrow> IMatchResult list \<Rightarrow> (aggregates \<times> aggregates) \<times> nat
     \<Rightarrow> (aggregates \<times> aggregates) \<times> nat"
where
  "fetchLoop pf clock remaining (aggs, totalMatchesProcessed) =
    (let page = take MATCH_FETCH_LIMIT remaining
     in if page = [] then (aggs, totalMatchesProcessed)
        else fetchLoop pf clock (drop MATCH_FETCH_LIMIT remaining)
               (fold (processMatch pf clock) page aggs, totalMatchesProcessed + length page))"
  by pat_completeness auto
termination
  by (relation "measure (\<lambda>(pf, clock, remaining, acc). length remaining)")
     (auto simp: MATCH_FETCH_LIMIT_def)

declare fetchLoop.simps [simp del]

text \<open>
  \<open>writeAggregatesToFirestore\<close>. The state of its loop is the store, the current batch,
  \<open>batchOpsCount\<close> and \<open>totalWrites\<close>; \<open>commitBatchIfNeeded\<close> commits the batch when it
  is not empty. The batches address different documents, and every commit is taken to
  succeed (a failure aborts the job).
\<close>

definition finalDoc :: "string \<Rightarrow> string \<Rightarrow> PeriodType \<Rightarrow> doc \<Rightarrow> string \<Rightarrow> doc" where
  "finalDoc playerId timeframeId periodType statsData nowISOforFallback =
    Map.empty
      (''playerId'' \<mapsto> Str playerId,
       ''timeframeId'' \<mapsto> Str timeframeId,
       ''periodType'' \<mapsto> Str (periodTypeName periodType),
       ''matchesPlayed'' \<mapsto> Num (numberOf (statsData ''matchesPlayed'')),
       ''wins'' \<mapsto> Num (numberOf (statsData ''wins'')),
       ''losses'' \<mapsto> Num (numberOf (statsData ''losses'')),
       ''goalsFor'' \<mapsto> Num (numberOf (statsData ''goalsFor'')),
       ''goalsAgainst'' \<mapsto> Num (numberOf (statsData ''goalsAgainst'')),
       ''humiliationsInflicted'' \<mapsto> Num (numberOf (statsData ''humiliationsInflicted'')),
       ''humiliationsSuffered'' \<mapsto> Num (numberOf (statsData ''humiliationsSuffered'')),
       ''suckerPunchesDealt'' \<mapsto> Num (numberOf (statsData ''suckerPunchesDealt'')),
       ''suckerPunchesReceived'' \<mapsto> Num (numberOf (statsData ''suckerPunchesReceived'')),
       ''firstActivityAt'' \<mapsto>
          Str (if textOf (statsData ''firstActivityAt'') \<noteq> []
               then textOf (statsData ''firstActivityAt'') else nowISOforFallback),
       ''lastUpdatedAt'' \<mapsto>
          Str (if textOf (statsData ''lastUpdatedAt'') \<noteq> []
               then textOf (statsData ''lastUpdatedAt'') else nowISOforFallback))"

definition commitBatchIfNeeded ::
  "store \<times> Write list \<times> nat \<times> nat \<Rightarrow> store \<times> Write list \<times> nat \<times> nat"
where
  "commitBatchIfNeeded st =
    (case st of (db, currentBatch, batchOpsCount, totalWrites) \<Rightarrow>
       if batchOpsCount > 0
       then (commit currentBatch db, [], 0, totalWrites + batchOpsCount)
       else st)"

definition writeAggregatesToFirestore ::
  "store \<Rightarrow> aggregates \<Rightarrow> PeriodType \<Rightarrow> string \<Rightarrow> store \<times> nat"
where
  "writeAggregatesToFirestore db aggs periodType nowISOforFallback =
    (case commitBatchIfNeeded
            (fold
               (\<lambda>(timeframeId, players) st.
                  fold
                    (\<lambda>(playerId, statsData) (db, currentBatch, batchOpsCount, totalWrites).
                       let docRef = StatsRef playerId periodType timeframeId;
                           currentBatch = currentBatch @
                             [WriteSet docRef
                                (finalDoc playerId timeframeId periodType statsData
                                   nowISOforFallback)];
                           batchOpsCount = batchOpsCount + 1
                       in if batchOpsCount \<ge> WRITE_BATCH_LIMIT
                          then commitBatchIfNeeded
                                 (db, currentBatch, batchOpsCount, totalWrites)
                          else (db, currentBatch, batchOpsCount, totalWrites))
                    players st)
               aggs (db, [], 0, 0)) of
       (db, currentBatch, batchOpsCount, totalWrites) \<Rightarrow> (db, totalWrites))"

text \<open>
  \<open>backfillTimeStats\<close>, from the fetch loop on: \<open>matches\<close> is the result of the range
  query, \<open>clock\<close> and \<open>now\<close> (the text of \<open>now.toISOString()\<close>) are the job's clock
  readings. It returns the store and the three counts of its report.
\<close>

definition backfillTimeStats ::
  "platform \<Rightarrow> int \<Rightarrow> string \<Rightarrow> IMatchResult list \<Rightarrow> store \<Rightarrow> store \<times> nat \<times> nat \<times> nat"
where
  "backfillTimeStats pf clock now matches db =
    (case fetchLoop pf clock matches (([], []), 0) of
       ((dailyAggregates, weeklyAggregates), totalMatchesProcessed) \<Rightarrow>
         (case writeAggregatesToFirestore db dailyAggregates Daily now of
            (db, dailyWrites) \<Rightarrow>
              (case writeAggregatesToFirestore db weeklyAggregates Weekly now of
                 (db, weeklyWrites) \<Rightarrow>
                   (db, totalMatchesProcessed, dailyWrites, weeklyWrites))))"

section \<open>Notions for the statements and proofs\<close>

text \<open>The document a write carries (for a merging write, what it makes of no document).\<close>

definition writtenDoc :: "Write \<Rightarrow> doc" where
  "writtenDoc w = (case w of WriteSet r d \<Rightarrow> d | WriteSetMerge r data \<Rightarrow> mergeInto None data)"

text \<open>\<open>opts.multiplier || 1\<close>, as \<open>generateStats\<close> reads it.\<close>

definition eventMultiplier :: "int option \<Rightarrow> int" where
  "eventMultiplier opt = (case opt of None \<Rightarrow> 1 | Some k \<Rightarrow> if k = 0 then 1 else k)"

text \<open>\<open>matchResult.matchDate || nowISO\<close>.\<close>

definition eventTimestamp :: "clockReadings \<Rightarrow> IMatchResult \<Rightarrow> string" where
  "eventTimestamp clk m = (case matchDate m of None \<Rightarrow> nowISO clk | Some d \<Rightarrow> if d = [] then nowISO clk else d)"

text \<open>The period identifiers \<open>generateStats\<close> computes for a match.\<close>

definition eventPeriods :: "platform \<Rightarrow> clockReadings \<Rightarrow> IMatchResult \<Rightarrow> TimePeriodIds" where
  "eventPeriods pf clk m = getTimePeriodIds pf (periodNow clk) (Some (eventTimestamp clk m))"

text \<open>The three writes one pass of the write loop stages for a player whose snapshots were read from \<open>db\<close>.\<close>

definition playerWrites ::
  "platform \<Rightarrow> clockReadings \<Rightarrow> store \<Rightarrow> IMatchResult \<Rightarrow> int option \<Rightarrow> nat \<Rightarrow> string \<Rightarrow> Write list"
where
  "playerWrites pf clk db m opt i p =
    [WriteSetMerge (PlayerRef p)
       ((calculateMetrics (metricsNow clk i) (entityMatchResult (nowISO clk) m p) m
           (eventMultiplier opt))(''modificationDate'' \<mapsto> SetTo (Str (nowISO clk)))),
     updateTimeBasedStatsDoc (StatsRef p Daily (daily (eventPeriods pf clk m)))
       \<lparr>ref = StatsRef p Daily (daily (eventPeriods pf clk m)),
        snapData = db (StatsRef p Daily (daily (eventPeriods pf clk m)))\<rparr>
       p (daily (eventPeriods pf clk m)) Daily
       (calculateTimeBasedIncrements (entityMatchResult (nowISO clk) m p) m (eventMultiplier opt))
       (nowISO clk),
     updateTimeBasedStatsDoc (StatsRef p Weekly (weekly (eventPeriods pf clk m)))
       \<lparr>ref = StatsRef p Weekly (weekly (eventPeriods pf clk m)),
        snapData = db (StatsRef p Weekly (weekly (eventPeriods pf clk m)))\<rparr>
       p (weekly (eventPeriods pf clk m)) Weekly
       (calculateTimeBasedIncrements (entityMatchResult (nowISO clk) m p) m (eventMultiplier opt))
       (nowISO clk)]"

text \<open>The identifier of a period type among the two.\<close>

definition periodId :: "PeriodType \<Rightarrow> TimePeriodIds \<Rightarrow> string" where
  "periodId t ids = (case t of Daily \<Rightarrow> daily ids | Weekly \<Rightarrow> weekly ids)"

text \<open>The update data of the lifetime document in pass \<open>i\<close>.\<close>

definition lifetimeData :: "clockReadings \<Rightarrow> IMatchResult \<Rightarrow> int option \<Rightarrow> nat \<Rightarrow> string \<Rightarrow> IMetrics" where
  "lifetimeData clk m opt i p =
     (calculateMetrics (metricsNow clk i) (entityMatchResult (nowISO clk) m p) m
        (eventMultiplier opt))(''modificationDate'' \<mapsto> SetTo (Str (nowISO clk)))"

text \<open>The bucket document written for a player and a period type.\<close>

definition bucketAfter ::
  "platform \<Rightarrow> clockReadings \<Rightarrow> store \<Rightarrow> IMatchResult \<Rightarrow> int option \<Rightarrow> string \<Rightarrow> PeriodType \<Rightarrow> doc"
where
  "bucketAfter pf clk db m opt p t =
     writtenDoc (updateTimeBasedStatsDoc (StatsRef p t (periodId t (eventPeriods pf clk m)))
       \<lparr>ref = StatsRef p t (periodId t (eventPeriods pf clk m)),
        snapData = db (StatsRef p t (periodId t (eventPeriods pf clk m)))\<rparr>
       p (periodId t (eventPeriods pf clk m)) t
       (calculateTimeBasedIncrements (entityMatchResult (nowISO clk) m p) m (eventMultiplier opt))
       (nowISO clk))"

text \<open>The counter fields of a lifetime document (the streak fields are not among them).\<close>

definition lifetimeCounterFields :: "string list" where
  "lifetimeCounterFields =
    [''totalMatches'', ''totalWins'', ''totalLosses'', ''totalGoalsFor'', ''totalGoalsAgainst'',
     ''totalFlawlessVictories'', ''totalHumiliations'', ''totalSuckerpunches'',
     ''totalKnockouts'']"

text \<open>The counter fields of a daily or weekly document.\<close>

definition bucketCounterFields :: "string list" where
  "bucketCounterFields =
    [''matchesPlayed'', ''wins'', ''losses'', ''goalsFor'', ''goalsAgainst'',
     ''humiliationsInflicted'', ''humiliationsSuffered'', ''suckerPunchesDealt'',
     ''suckerPunchesReceived'']"

text \<open>The field of the increments that a field name of the document stands for.\<close>

definition incrementField :: "ITimeBasedPlayerStatsIncrements \<Rightarrow> string \<Rightarrow> int" where
  "incrementField inc f =
    (if f = ''matchesPlayed'' then matchesPlayed inc
     else if f = ''wins'' then wins inc
     else if f = ''losses'' then losses inc
     else if f = ''goalsFor'' then goalsFor inc
     else if f = ''goalsAgainst'' then goalsAgainst inc
     else if f = ''humiliationsInflicted'' then humiliationsInflicted inc
     else if f = ''humiliationsSuffered'' then humiliationsSuffered inc
     else if f = ''suckerPunchesDealt'' then suckerPunchesDealt inc
     else if f = ''suckerPunchesReceived'' then suckerPunchesReceived inc
     else 0)"

text \<open>The invariant of the two streaks of a lifetime document.\<close>

definition streakInvariant :: "doc \<Rightarrow> bool" where
  "streakInvariant d =
    ((numberOf (d ''winStreak'') > 0 \<longrightarrow> numberOf (d ''loseStreak'') = 0) \<and>
     (numberOf (d ''loseStreak'') > 0 \<longrightarrow> numberOf (d ''winStreak'') = 0))"

text \<open>Every lifetime document of the store satisfies a predicate.\<close>

definition playersSatisfy :: "(doc \<Rightarrow> bool) \<Rightarrow> store \<Rightarrow> bool" where
  "playersSatisfy P db = (\<forall>q d. db (PlayerRef q) = Some d \<longrightarrow> P d)"

text \<open>The update payload \<open>batchUpdateStreaks\<close> builds from the data of one snapshot.\<close>

definition streakPayload :: "doc \<Rightarrow> IMetrics" where
  "streakPayload d =
    (\<lambda>k. if k = ''highestWinStreak'' \<and> numberOf (d ''winStreak'') > numberOf (d ''highestWinStreak'')
           then Some (SetTo (Num (numberOf (d ''winStreak''))))
         else if k = ''highestLoseStreak''
                 \<and> numberOf (d ''loseStreak'') > numberOf (d ''highestLoseStreak'')
           then Some (SetTo (Num (numberOf (d ''loseStreak''))))
         else None)"

text \<open>The write \<open>batchUpdateStreaks\<close> adds to its batch for one snapshot, if any.\<close>

definition promotion :: "DocumentSnapshot \<Rightarrow> Write list" where
  "promotion snap =
    (case snapData snap of
       None \<Rightarrow> []
     | Some d \<Rightarrow>
         if numberOf (d ''winStreak'') > numberOf (d ''highestWinStreak'')
            \<or> numberOf (d ''loseStreak'') > numberOf (d ''highestLoseStreak'')
         then [WriteSetMerge (ref snap) (streakPayload d)] else [])"

text \<open>The document a write addresses.\<close>

definition writeRef :: "Write \<Rightarrow> DocumentReference" where
  "writeRef w = (case w of WriteSet r d \<Rightarrow> r | WriteSetMerge r data \<Rightarrow> r)"

text \<open>A partial document of the backfill that carries both timestamps.\<close>

definition stamped :: "doc \<Rightarrow> bool" where
  "stamped d = (textOf (d ''firstActivityAt'') \<noteq> [] \<and> textOf (d ''lastUpdatedAt'') \<noteq> [])"

text \<open>Every entry of a period carries both timestamps.\<close>

definition playersStamped :: "(string \<times> doc) list \<Rightarrow> bool" where
  "playersStamped players = list_all (\<lambda>(p, d). stamped d) players"

text \<open>Every entry of the aggregates carries both timestamps.\<close>

definition allStamped :: "aggregates \<Rightarrow> bool" where
  "allStamped aggs = list_all (\<lambda>(tf, players). playersStamped players) aggs"

text \<open>The writes \<open>writeAggregatesToFirestore\<close> stages, in the order of its loops.\<close>

definition stagedWrites :: "aggregates \<Rightarrow> PeriodType \<Rightarrow> string \<Rightarrow> Write list" where
  "stagedWrites aggs periodType now =
    concat (map (\<lambda>(timeframeId, players).
      map (\<lambda>(playerId, statsData).
             WriteSet (StatsRef playerId periodType timeframeId)
               (finalDoc playerId timeframeId periodType statsData now))
          players) aggs)"

text \<open>What a state of the write loop amounts to once its current batch is committed: the store and the number of writes.\<close>

definition flushed :: "store \<times> Write list \<times> nat \<times> nat \<Rightarrow> store \<times> nat" where
  "flushed st = (case st of (db, batch, n, tot) \<Rightarrow> (commit batch db, tot + n))"

text \<open>In a state of the write loop, \<open>batchOpsCount\<close> is the length of the current batch.\<close>

definition counted :: "store \<times> Write list \<times> nat \<times> nat \<Rightarrow> bool" where
  "counted st = (case st of (db, batch, n, tot) \<Rightarrow> n = length batch)"

text \<open>The body of the inner loop of \<open>writeAggregatesToFirestore\<close> (lines 308 to 336).\<close>

definition stageWrite ::
  "PeriodType \<Rightarrow> string \<Rightarrow> string \<Rightarrow> string \<times> doc \<Rightarrow> store \<times> Write list \<times> nat \<times> nat
     \<Rightarrow> store \<times> Write list \<times> nat \<times> nat"
where
  "stageWrite pt tf now =
    (\<lambda>(playerId, statsData) (db, currentBatch, batchOpsCount, totalWrites).
       let docRef = StatsRef playerId pt tf;
           currentBatch = currentBatch @
             [WriteSet docRef (finalDoc playerId tf pt statsData now)];
           batchOpsCount = batchOpsCount + 1
       in if batchOpsCount \<ge> WRITE_BATCH_LIMIT
          then commitBatchIfNeeded (db, currentBatch, batchOpsCount, totalWrites)
          else (db, currentBatch, batchOpsCount, totalWrites))"

text \<open>All the writes of a backfill over a list of matches, daily then weekly.\<close>

definition backfillWrites :: "platform \<Rightarrow> IMatchResult list \<Rightarrow> Write list" where
  "backfillWrites pf matches =
    stagedWrites (fst (fold (processMatch pf 0) matches ([], []))) Daily []
    @ stagedWrites (snd (fold (processMatch pf 0) matches ([], []))) Weekly []"

text \<open>A list of writes that are all plain \<open>set\<close>s.\<close>

definition onlySets :: "Write list \<Rightarrow> bool" where
  "onlySets ws = list_all (\<lambda>w. case w of WriteSet r d \<Rightarrow> True | WriteSetMerge r data \<Rightarrow> False) ws"

section \<open>Data for the concrete runs\<close>

text \<open>A match for the concrete runs below: A beat B 11 to 7.\<close>

definition match_11_7 :: IMatchResult where
  "match_11_7 = \<lparr>matchDate = Some ''2025-03-10T12:00:00.000Z'', finalScore = [11, 7],
     toto = 1, homeTeamIds = [''A''], awayTeamIds = [''B'']\<rparr>"

text \<open>A drawn match, with no decided outcome.\<close>

definition match_5_5 :: IMatchResult where
  "match_5_5 = \<lparr>matchDate = Some ''2025-03-10T12:00:00.000Z'', finalScore = [5, 5],
     toto = 0, homeTeamIds = [''A''], awayTeamIds = [''B'']\<rparr>"

text \<open>The clock readings of the creation of a match and of its deletion the next day.\<close>

definition clockA :: clockReadings where
  "clockA = \<lparr>nowISO = ''2025-03-10T12:00:05.000Z'',
             metricsNow = (\<lambda>i. ''2025-03-10T12:00:05.000Z''),
             periodNow = 1741608005000\<rparr>"

definition clockB :: clockReadings where
  "clockB = \<lparr>nowISO = ''2025-03-11T09:00:00.000Z'',
             metricsNow = (\<lambda>i. ''2025-03-11T09:00:00.000Z''),
             periodNow = 1741683600000\<rparr>"

text \<open>
  A store in which player A has a lifetime document (two matches played and won) and a
  daily document for 2025-03-10.
\<close>

definition sampleStore :: store where
  "sampleStore =
    Map.empty
      (PlayerRef ''A'' \<mapsto>
         Map.empty(''totalMatches'' \<mapsto> Num 2, ''totalWins'' \<mapsto> Num 2, ''winStreak'' \<mapsto> Num 2,
                   ''highestWinStreak'' \<mapsto> Num 1),
       StatsRef ''A'' Daily ''2025-03-10'' \<mapsto>
         Map.empty(''playerId'' \<mapsto> Str ''A'', ''timeframeId'' \<mapsto> Str ''2025-03-10'',
                   ''periodType'' \<mapsto> Str ''daily'', ''matchesPlayed'' \<mapsto> Num 2,
                   ''wins'' \<mapsto> Num 2, ''goalsFor'' \<mapsto> Num 20,
                   ''firstActivityAt'' \<mapsto> Str ''2025-03-10T08:00:00.000Z'',
                   ''lastUpdatedAt'' \<mapsto> Str ''2025-03-10T09:00:00.000Z''))"

section \<open>Properties of the validator\<close>

lemma validate_score_stage:
  assumes "home \<noteq> []" "length home = length away"
    "length home \<le> 2" "0 \<le> s1" "s1 \<le> 11" "0 \<le> s2" "s2 \<le> 11"
  shows "validateAddMatchResultInput pf home away [s1, s2] md =
    (if s1 = 10 \<and> s2 = 10 then Inl (TieAt10 s1 s2)
     else if s1 = 11 \<and> s2 = 11 then Inl (TieAt11 s1 s2)
     else if checkIfDuplicateExists (home @ away) then Inl DuplicatePlayer
     else (case md of
             None \<Rightarrow> Inr (max s1 s2 < 10 \<and> (s1 \<noteq> 0 \<or> s2 \<noteq> 0))
           | Some s \<Rightarrow>
               if s \<noteq> [] \<and> dateParse pf s = None then Inl (InvalidMatchDate s)
               else Inr (max s1 s2 < 10 \<and> (s1 \<noteq> 0 \<or> s2 \<noteq> 0))))"
proof -
  have shape: "length home \<noteq> 0" "length away \<noteq> 0"
    "\<not> (length home \<noteq> length away \<or> length home > 2
        \<or> length home < 1)"
    using assms(1-3) by auto
  have score: "\<not> (length [s1, s2] \<noteq> 2 \<or> [s1, s2] ! 0 < 0 \<or> [s1, s2] ! 1 < 0)"
    "\<not> ([s1, s2] ! 0 > 11 \<or> [s1, s2] ! 1 > 11)"
    using assms(4-7) by auto
  show ?thesis
    unfolding validateAddMatchResultInput_def Let_def
    using shape score assms(4-7)
    by (auto split: option.splits simp: max_def min_def)
qed

text \<open>
  C2, as the code has it. For teams that pass the shape rules and have no duplicate, no
  match date given, every score pair of \<open>{0..11} \<times> {0..11}\<close> is classified: exactly the
  ties 10-10 and 11-11 are rejected; every other pair is accepted, 11-10 included, and
  the warning is raised exactly when neither side reaches 10 and the pair is not 0-0.
\<close>

theorem validate_score_classification:
  assumes "home \<noteq> []" "length home = length away"
    "length home \<le> 2" "\<not> checkIfDuplicateExists (home @ away)"
    "0 \<le> s1" "s1 \<le> 11" "0 \<le> s2" "s2 \<le> 11"
  shows "validateAddMatchResultInput pf home away [s1, s2] None =
    (if s1 = 10 \<and> s2 = 10 then Inl (TieAt10 s1 s2)
     else if s1 = 11 \<and> s2 = 11 then Inl (TieAt11 s1 s2)
     else Inr (max s1 s2 < 10 \<and> (s1 \<noteq> 0 \<or> s2 \<noteq> 0)))"
  using validate_score_stage [OF assms(1-3) assms(5-8), of pf None] assms(4) by simp

theorem validate_score_classification_witness:
  "validateAddMatchResultInput utcHost [''A''] [''B''] [10, 3] None = Inr False"
  using validate_score_classification [of "[''A'']" "[''B'']" 10 3 utcHost]
  by (simp add: checkIfDuplicateExists_def)

theorem validate_accepts_11_10:
  "validateAddMatchResultInput utcHost
     [''A''] [''B''] [11, 10] None = Inr False"
  by (simp add: validateAddMatchResultInput_def checkIfDuplicateExists_def)

text \<open>
  C5, as the code has it. The score ties are tested before the duplicate test: an input
  that passes the shape and range rules and whose score is the tie 10-10 or 11-11 is
  rejected for the score, whoever plays, and the duplicate rejection is reported only
  for a score that passed the score rules.
\<close>

theorem validate_score_before_duplicates:
  assumes "home \<noteq> []" "length home = length away"
    "length home \<le> 2" "(s1 = 10 \<and> s2 = 10) \<or> (s1 = 11 \<and> s2 = 11)"
  shows "validateAddMatchResultInput pf home away [s1, s2] md =
    (if s1 = 10 then Inl (TieAt10 s1 s2) else Inl (TieAt11 s1 s2))"
proof -
  have "0 \<le> s1" "s1 \<le> 11" "0 \<le> s2" "s2 \<le> 11" using assms(4) by auto
  from validate_score_stage [OF assms(1-3) this] assms(4) show ?thesis by auto
qed

theorem validate_score_before_duplicates_witness:
  "checkIfDuplicateExists ([''A''] @ [''A'']) \<and>
   validateAddMatchResultInput utcHost [''A''] [''A''] [11, 11] None = Inl (TieAt11 11 11)"
  using validate_score_before_duplicates [of "[''A'']" "[''A'']" 11 11 utcHost None]
  by (simp add: checkIfDuplicateExists_def)

theorem validate_duplicate_and_tie_reports_tie:
  "validateAddMatchResultInput utcHost
     [''A''] [''A''] [10, 10] None = Inl (TieAt10 10 10)"
  by (simp add: validateAddMatchResultInput_def)

section \<open>Properties of the increment calculator\<close>

lemma calculateMetrics_scale:
  "incrementOf (calculateMetrics now er m k f) = k * incrementOf (calculateMetrics now er m 1 f)"
  unfolding calculateMetrics_def Let_def
  by (cases "didWin er"; cases "didLose er"; cases "hasHumiliation er"; cases "hasSuckerPunch er")
     (simp_all add: incrementOf_def)

lemma calculateTimeBasedIncrements_scale:
  "matchesPlayed (calculateTimeBasedIncrements er m k) =
     k * matchesPlayed (calculateTimeBasedIncrements er m 1)"
  "wins (calculateTimeBasedIncrements er m k) = k * wins (calculateTimeBasedIncrements er m 1)"
  "losses (calculateTimeBasedIncrements er m k) =
     k * losses (calculateTimeBasedIncrements er m 1)"
  "goalsFor (calculateTimeBasedIncrements er m k) =
     k * goalsFor (calculateTimeBasedIncrements er m 1)"
  "goalsAgainst (calculateTimeBasedIncrements er m k) =
     k * goalsAgainst (calculateTimeBasedIncrements er m 1)"
  "humiliationsInflicted (calculateTimeBasedIncrements er m k) =
     k * humiliationsInflicted (calculateTimeBasedIncrements er m 1)"
  "humiliationsSuffered (calculateTimeBasedIncrements er m k) =
     k * humiliationsSuffered (calculateTimeBasedIncrements er m 1)"
  "suckerPunchesDealt (calculateTimeBasedIncrements er m k) =
     k * suckerPunchesDealt (calculateTimeBasedIncrements er m 1)"
  "suckerPunchesReceived (calculateTimeBasedIncrements er m k) =
     k * suckerPunchesReceived (calculateTimeBasedIncrements er m 1)"
  by (simp_all add: calculateTimeBasedIncrements_def Let_def)

text \<open>
  C6. For every per-player result, match and multiplier \<open>k\<close>, every field of the lifetime
  update data adds \<open>k\<close> times what it adds with multiplier 1 (a field that is set, not
  incremented, adds nothing in both), and every field of the per-period increments is \<open>k\<close>
  times the field computed with multiplier 1.
\<close>

theorem increments_scale_with_multiplier:
  "incrementOf (calculateMetrics now er m k f) =
     k * incrementOf (calculateMetrics now er m 1 f) \<and>
   matchesPlayed (calculateTimeBasedIncrements er m k) =
     k * matchesPlayed (calculateTimeBasedIncrements er m 1) \<and>
   wins (calculateTimeBasedIncrements er m k) =
     k * wins (calculateTimeBasedIncrements er m 1) \<and>
   losses (calculateTimeBasedIncrements er m k) =
     k * losses (calculateTimeBasedIncrements er m 1) \<and>
   goalsFor (calculateTimeBasedIncrements er m k) =
     k * goalsFor (calculateTimeBasedIncrements er m 1) \<and>
   goalsAgainst (calculateTimeBasedIncrements er m k) =
     k * goalsAgainst (calculateTimeBasedIncrements er m 1) \<and>
   humiliationsInflicted (calculateTimeBasedIncrements er m k) =
     k * humiliationsInflicted (calculateTimeBasedIncrements er m 1) \<and>
   humiliationsSuffered (calculateTimeBasedIncrements er m k) =
     k * humiliationsSuffered (calculateTimeBasedIncrements er m 1) \<and>
   suckerPunchesDealt (calculateTimeBasedIncrements er m k) =
     k * suckerPunchesDealt (calculateTimeBasedIncrements er m 1) \<and>
   suckerPunchesReceived (calculateTimeBasedIncrements er m k) =
     k * suckerPunchesReceived (calculateTimeBasedIncrements er m 1)"
  using calculateMetrics_scale [of now er m k f] calculateTimeBasedIncrements_scale [of er m k]
  by blast

theorem increments_scale_with_multiplier_witness:
  "incrementOf (calculateMetrics ''2025-03-10T12:00:05.000Z''
      (entityMatchResult ''2025-03-10T12:00:05.000Z'' match_11_7 ''A'') match_11_7 (- 1)
      ''totalGoalsFor'') = - 11"
  using increments_scale_with_multiplier
    [of "''2025-03-10T12:00:05.000Z''"
        "entityMatchResult ''2025-03-10T12:00:05.000Z'' match_11_7 ''A''" match_11_7 "- 1"
        "''totalGoalsFor''"]
  by (simp add: calculateMetrics_def incrementOf_def entityMatchResult_def match_11_7_def
      winners_def losers_def numberAt_def Let_def)

text \<open>
  C4, as the code has it. Both flags are computed once for the match and copied into the
  result of every participant. After a home win 10 to 0 the winner and the loser both
  carry \<open>hasHumiliation\<close>, counted as \<open>humiliationsInflicted\<close> for the winner and as
  \<open>humiliationsSuffered\<close> for the loser. After a home win 11 to 7 the winner and the
  loser both carry \<open>hasSuckerPunch\<close>, counted as \<open>suckerPunchesDealt\<close> for the winner
  only and as \<open>suckerPunchesReceived\<close> for the loser only.
\<close>

theorem match_flags_per_participant:
  assumes "toto m = 1" "w \<in> set (homeTeamIds m)" "l \<in> set (awayTeamIds m)"
    "l \<notin> set (homeTeamIds m)"
  shows
   "(finalScore m = [10, 0] \<longrightarrow>
       hasHumiliation (entityMatchResult stamp m w) \<and>
       hasHumiliation (entityMatchResult stamp m l) \<and>
       humiliationsInflicted
         (calculateTimeBasedIncrements (entityMatchResult stamp m w) m k) = k \<and>
       humiliationsSuffered
         (calculateTimeBasedIncrements (entityMatchResult stamp m l) m k) = k) \<and>
    (finalScore m = [11, 7] \<longrightarrow>
       hasSuckerPunch (entityMatchResult stamp m w) \<and>
       hasSuckerPunch (entityMatchResult stamp m l) \<and>
       suckerPunchesDealt
         (calculateTimeBasedIncrements (entityMatchResult stamp m w) m k) = k \<and>
       suckerPunchesReceived
         (calculateTimeBasedIncrements (entityMatchResult stamp m w) m k) = 0 \<and>
       suckerPunchesReceived
         (calculateTimeBasedIncrements (entityMatchResult stamp m l) m k) = k \<and>
       suckerPunchesDealt
         (calculateTimeBasedIncrements (entityMatchResult stamp m l) m k) = 0)"
  using assms
  by (simp add: entityMatchResult_def calculateTimeBasedIncrements_def winners_def losers_def
      checkFlawlessVictory_def checkSuckerPunch_def Let_def)

theorem match_flags_per_participant_witness:
  "hasSuckerPunch (entityMatchResult ''2025-03-10T12:00:05.000Z'' match_11_7 ''A'') \<and>
   suckerPunchesDealt (calculateTimeBasedIncrements
     (entityMatchResult ''2025-03-10T12:00:05.000Z'' match_11_7 ''A'') match_11_7 1) = 1 \<and>
   suckerPunchesReceived (calculateTimeBasedIncrements
     (entityMatchResult ''2025-03-10T12:00:05.000Z'' match_11_7 ''B'') match_11_7 1) = 1"
  using match_flags_per_participant
    [of match_11_7 "''A''" "''B''" "''2025-03-10T12:00:05.000Z''" 1]
  by (simp add: match_11_7_def)

theorem loser_carries_sucker_punch:
  "hasSuckerPunch (entityMatchResult ''2025-03-10T12:00:05.000Z'' match_11_7 ''B'') \<and>
   suckerPunchesReceived (calculateTimeBasedIncrements
     (entityMatchResult ''2025-03-10T12:00:05.000Z'' match_11_7 ''B'') match_11_7 1) = 1"
  by (simp add: entityMatchResult_def calculateTimeBasedIncrements_def winners_def losers_def
      checkSuckerPunch_def checkFlawlessVictory_def match_11_7_def Let_def)

section \<open>Properties of the aggregation engine\<close>

lemma fold_upd_lookup:
  "fold (\<lambda>x m. m(x \<mapsto> g x)) xs m0 y = (if y \<in> set xs then Some (g y) else m0 y)"
  by (induction xs arbitrary: m0) auto

lemma snapshotMap_lookup:
  "fold (\<lambda>snap m. m(ref snap \<mapsto> snap)) (getAll db refs) Map.empty r =
     (if r \<in> set refs then Some \<lparr>ref = r, snapData = db r\<rparr> else None)"
proof -
  have "fold (\<lambda>snap m. m(ref snap \<mapsto> snap)) (getAll db refs) Map.empty =
        fold (\<lambda>x m. m(x \<mapsto> \<lparr>ref = x, snapData = db x\<rparr>)) refs Map.empty"
    by (simp add: getAll_def fold_map comp_def)
  then show ?thesis by (simp add: fold_upd_lookup)
qed

lemma updateTimeBasedStatsDoc_WriteSet:
  "updateTimeBasedStatsDoc r snap p tf pt inc ts =
     WriteSet r (writtenDoc (updateTimeBasedStatsDoc r snap p tf pt inc ts))"
  by (simp add: updateTimeBasedStatsDoc_def writtenDoc_def split: option.splits)

lemma forEachIndexed_cong:
  "(\<And>j x. x \<in> set xs \<Longrightarrow> f j x = g j x) \<Longrightarrow> forEachIndexed f i xs = forEachIndexed g i xs"
  by (induction xs arbitrary: i) auto

lemma generateStats_writes:
  "generateStats pf clk db m opt =
     forEachIndexed (playerWrites pf clk db m opt) 0 (homeTeamIds m @ awayTeamIds m)"
  unfolding generateStats_def Let_def
  apply (rule forEachIndexed_cong)
  apply (simp only: writePlayer_def fold_upd_lookup snapshotMap_lookup)
  apply (auto simp: playerWrites_def eventMultiplier_def eventPeriods_def eventTimestamp_def Let_def)
  done

lemma commit_append: "commit (ws @ vs) s = commit vs (commit ws s)"
  by (simp add: commit_def)

lemma commit_playerWrites:
  "commit (playerWrites pf clk db m opt i p) s =
     s(PlayerRef p \<mapsto> mergeInto (s (PlayerRef p)) (lifetimeData clk m opt i p),
       StatsRef p Daily (daily (eventPeriods pf clk m)) \<mapsto> bucketAfter pf clk db m opt p Daily,
       StatsRef p Weekly (weekly (eventPeriods pf clk m)) \<mapsto> bucketAfter pf clk db m opt p Weekly)"
  unfolding playerWrites_def commit_def bucketAfter_def lifetimeData_def periodId_def
  apply (subst (2) updateTimeBasedStatsDoc_WriteSet)
  apply (subst (1) updateTimeBasedStatsDoc_WriteSet)
  apply simp
  done

lemma commit_loop_bucket:
  "commit (forEachIndexed (playerWrites pf clk db m opt) i ps) s (StatsRef q t x) =
     (if q \<in> set ps \<and> x = periodId t (eventPeriods pf clk m)
      then Some (bucketAfter pf clk db m opt q t)
      else s (StatsRef q t x))"
proof (induction ps arbitrary: i s)
  case Nil
  then show ?case by (simp add: commit_def)
next
  case (Cons p ps)
  show ?case
    by (simp add: commit_append Cons.IH commit_playerWrites) (cases t; auto simp: periodId_def)
qed

lemma commit_loop_lifetime_other:
  "q \<notin> set ps \<Longrightarrow>
   commit (forEachIndexed (playerWrites pf clk db m opt) i ps) s (PlayerRef q) = s (PlayerRef q)"
proof (induction ps arbitrary: i s)
  case Nil
  then show ?case by (simp add: commit_def)
next
  case (Cons p ps)
  then show ?case by (simp add: commit_append commit_playerWrites)
qed

lemma numberOf_mergeInto:
  "numberOf (mergeInto old data f) =
     (case data f of None \<Rightarrow> numberOf (fieldOf old f)
      | Some (Increment n) \<Rightarrow> numberOf (fieldOf old f) + n
      | Some (SetTo v) \<Rightarrow> numberOf (Some v))"
  by (simp add: mergeInto_def numberOf_def split: option.splits FieldOp.splits)

lemma commit_loop_lifetime_number:
  assumes "\<And>j p. lifetimeData clk m opt j p f = None \<or>
                  lifetimeData clk m opt j p f = Some (Increment (c p))"
    and "\<And>j p. lifetimeData clk m opt j p f = None \<Longrightarrow> c p = 0"
  shows "numberOf (fieldOf (commit (forEachIndexed (playerWrites pf clk db m opt) i ps) s
            (PlayerRef q)) f) =
         numberOf (fieldOf (s (PlayerRef q)) f) + int (count_list ps q) * c q"
proof (induction ps arbitrary: i s)
  case Nil
  then show ?case by (simp add: commit_def)
next
  case (Cons p ps)
  have step: "numberOf (fieldOf ((commit (playerWrites pf clk db m opt i p) s) (PlayerRef q)) f) =
      numberOf (fieldOf (s (PlayerRef q)) f) + (if p = q then c q else 0)"
    using assms(1) [of i p] assms(2) [of i p]
    by (auto simp: commit_playerWrites fieldOf_def numberOf_mergeInto)
  show ?case
    by (simp add: commit_append Cons.IH step algebra_simps)
qed

lemma updated_counter:
  "f \<in> set (lifetimeCounterFields @ bucketCounterFields) \<Longrightarrow>
   numberOf (writtenDoc (updateTimeBasedStatsDoc r snap p tf pt inc ts) f) =
     numberOf (fieldOf (snapData snap) f) + incrementField inc f"
  by (cases "snapData snap")
     (auto simp: updateTimeBasedStatsDoc_def writtenDoc_def numberOf_def fieldOf_def
        incrementField_def bucketCounterFields_def lifetimeCounterFields_def)

lemma incrementField_scale:
  "incrementField (calculateTimeBasedIncrements (entityMatchResult n1 m p) m k) f =
     k * incrementField (calculateTimeBasedIncrements (entityMatchResult n2 m p) m 1) f"
  by (simp add: incrementField_def calculateTimeBasedIncrements_def entityMatchResult_def Let_def)

lemma lifetimeData_shape:
  assumes "f \<in> set (lifetimeCounterFields @ bucketCounterFields)"
  shows "lifetimeData clk m opt j p f = None \<or>
         lifetimeData clk m opt j p f =
           Some (Increment (eventMultiplier opt *
             incrementOf (calculateMetrics [] (entityMatchResult [] m p) m 1 f)))"
    and "lifetimeData clk m opt j p f = None \<Longrightarrow>
           eventMultiplier opt * incrementOf (calculateMetrics [] (entityMatchResult [] m p) m 1 f) = 0"
proof -
  have ne: "f \<noteq> ''modificationDate''" "f \<noteq> ''dateLastMatch''" "f \<noteq> ''dateLastWin''"
    "f \<noteq> ''winStreak''" "f \<noteq> ''loseStreak''" "f \<noteq> ''dateLastFlawlessVictory''"
    "f \<noteq> ''dateLastLose''" "f \<noteq> ''dateLastHumiliation''"
    using assms by (auto simp: lifetimeCounterFields_def bucketCounterFields_def)
  show "lifetimeData clk m opt j p f = None \<or>
         lifetimeData clk m opt j p f =
           Some (Increment (eventMultiplier opt *
             incrementOf (calculateMetrics [] (entityMatchResult [] m p) m 1 f)))"
    unfolding lifetimeData_def calculateMetrics_def Let_def entityMatchResult_def
    using ne
    by (cases "p \<in> set (winners m)"; cases "p \<in> set (losers m)";
        cases "checkFlawlessVictory (finalScore m)"; cases "checkSuckerPunch (finalScore m)")
       (simp_all add: incrementOf_def)
  show "lifetimeData clk m opt j p f = None \<Longrightarrow>
           eventMultiplier opt * incrementOf (calculateMetrics [] (entityMatchResult [] m p) m 1 f) = 0"
    unfolding lifetimeData_def calculateMetrics_def Let_def entityMatchResult_def
    using ne
    by (cases "p \<in> set (winners m)"; cases "p \<in> set (losers m)";
        cases "checkFlawlessVictory (finalScore m)"; cases "checkSuckerPunch (finalScore m)")
       (simp_all add: incrementOf_def split: if_splits)
qed

lemma eventPeriods_dated:
  "matchDate m = Some d \<Longrightarrow> d \<noteq> [] \<Longrightarrow>
   eventPeriods pf clk m = getTimePeriodIds pf 0 (Some d)"
  by (simp add: eventPeriods_def eventTimestamp_def getTimePeriodIds_def)

lemma lifetime_after_commit:
  assumes "f \<in> set (lifetimeCounterFields @ bucketCounterFields)"
  shows "numberOf (fieldOf (commit (generateStats pf clk db m opt) db (PlayerRef q)) f) =
         numberOf (fieldOf (db (PlayerRef q)) f) +
           int (count_list (homeTeamIds m @ awayTeamIds m) q) *
             (eventMultiplier opt *
                incrementOf (calculateMetrics [] (entityMatchResult [] m q) m 1 f))"
  unfolding generateStats_writes
  by (rule commit_loop_lifetime_number) (use lifetimeData_shape [OF assms] in blast)+

lemma bucket_after_commit:
  "commit (generateStats pf clk db m opt) db (StatsRef q t x) =
     (if q \<in> set (homeTeamIds m @ awayTeamIds m) \<and> x = periodId t (eventPeriods pf clk m)
      then Some (bucketAfter pf clk db m opt q t)
      else db (StatsRef q t x))"
  unfolding generateStats_writes by (rule commit_loop_bucket)

lemma bucketAfter_counter:
  "f \<in> set (lifetimeCounterFields @ bucketCounterFields) \<Longrightarrow>
   numberOf (bucketAfter pf clk db m opt q t f) =
     numberOf (fieldOf (db (StatsRef q t (periodId t (eventPeriods pf clk m)))) f) +
       eventMultiplier opt *
         incrementField (calculateTimeBasedIncrements (entityMatchResult [] m q) m 1) f"
  unfolding bucketAfter_def
  by (simp add: updated_counter incrementField_scale [of "nowISO clk" m q "eventMultiplier opt" f "[]"])

lemma lifetimeData_streaks:
  "lifetimeData clk m opt j p ''winStreak'' = Some (SetTo (Num 0)) \<or>
   lifetimeData clk m opt j p ''loseStreak'' = Some (SetTo (Num 0))"
  by (simp add: lifetimeData_def calculateMetrics_def Let_def)

lemma mergeInto_streakInvariant:
  "streakInvariant (mergeInto old (lifetimeData clk m opt j p))"
proof -
  have "numberOf (mergeInto old (lifetimeData clk m opt j p) ''winStreak'') = 0 \<or>
        numberOf (mergeInto old (lifetimeData clk m opt j p) ''loseStreak'') = 0"
    using lifetimeData_streaks [of clk m opt j p]
    by (auto simp: mergeInto_def numberOf_def)
  then show ?thesis by (auto simp: streakInvariant_def)
qed

lemma commit_loop_invariant:
  "playersSatisfy streakInvariant s \<Longrightarrow>
   playersSatisfy streakInvariant
     (commit (forEachIndexed (playerWrites pf clk db m opt) i ps) s)"
proof (induction ps arbitrary: i s)
  case Nil
  then show ?case by (simp add: commit_def)
next
  case (Cons p ps)
  have "playersSatisfy streakInvariant (commit (playerWrites pf clk db m opt i p) s)"
    using Cons.prems
    by (auto simp: playersSatisfy_def commit_playerWrites mergeInto_streakInvariant)
  then show ?case by (simp add: commit_append Cons.IH)
qed

lemma commit_loop_lifetime_set:
  assumes "\<And>j p. lifetimeData clk m opt j p f = Some (SetTo v)"
  shows "q \<in> set ps \<Longrightarrow>
    fieldOf (commit (forEachIndexed (playerWrites pf clk db m opt) i ps) s (PlayerRef q)) f
      = Some v"
proof (induction ps arbitrary: i s)
  case Nil
  then show ?case by simp
next
  case (Cons p ps)
  show ?case
  proof (cases "q \<in> set ps")
    case True
    then show ?thesis by (simp add: commit_append Cons.IH)
  next
    case False
    with Cons.prems have "q = p" by simp
    with False show ?thesis
      by (simp add: commit_append commit_loop_lifetime_other commit_playerWrites fieldOf_def
          mergeInto_def assms)
  qed
qed

lemma lifetimeData_undecided:
  "toto m \<noteq> 1 \<Longrightarrow> toto m \<noteq> 2 \<Longrightarrow>
   lifetimeData clk m opt j p ''winStreak'' = Some (SetTo (Num 0)) \<and>
   lifetimeData clk m opt j p ''loseStreak'' = Some (SetTo (Num 0))"
  by (simp add: lifetimeData_def calculateMetrics_def Let_def entityMatchResult_def
      winners_def losers_def)

lemma applyEvents_invariant:
  "playersSatisfy streakInvariant db \<Longrightarrow> playersSatisfy streakInvariant (applyEvents pf evs db)"
proof (induction evs arbitrary: db)
  case Nil
  then show ?case by simp
next
  case (Cons ev evs)
  obtain clk m opt where ev: "ev = (clk, m, opt)" by (cases ev) auto
  have "playersSatisfy streakInvariant (commit (generateStats pf clk db m opt) db)"
    unfolding generateStats_writes using Cons.prems by (rule commit_loop_invariant)
  then show ?case unfolding ev by (simp add: Cons.IH)
qed

lemma streakLoop_promotions:
  "streakLoop snaps (batch, changed) =
     (batch @ concat (map promotion snaps), changed \<or> concat (map promotion snaps) \<noteq> [])"
proof (induction snaps arbitrary: batch changed)
  case Nil
  then show ?case by simp
next
  case (Cons snap snaps)
  show ?case
  proof (cases "snapData snap")
    case None
    then show ?thesis by (simp add: Cons.IH promotion_def)
  next
    case (Some d)
    have pay1: "Map.empty(''highestWinStreak'' \<mapsto> SetTo (Num (numberOf (d ''winStreak''))),
                  ''highestLoseStreak'' \<mapsto> SetTo (Num (numberOf (d ''loseStreak'')))) = streakPayload d"
      if "numberOf (d ''winStreak'') > numberOf (d ''highestWinStreak'')"
         "numberOf (d ''loseStreak'') > numberOf (d ''highestLoseStreak'')"
      using that by (auto simp: streakPayload_def fun_eq_iff)
    have pay2: "Map.empty(''highestWinStreak'' \<mapsto> SetTo (Num (numberOf (d ''winStreak'')))) = streakPayload d"
      if "numberOf (d ''winStreak'') > numberOf (d ''highestWinStreak'')"
         "\<not> numberOf (d ''loseStreak'') > numberOf (d ''highestLoseStreak'')"
      using that by (auto simp: streakPayload_def fun_eq_iff)
    have pay3: "Map.empty(''highestLoseStreak'' \<mapsto> SetTo (Num (numberOf (d ''loseStreak'')))) = streakPayload d"
      if "\<not> numberOf (d ''winStreak'') > numberOf (d ''highestWinStreak'')"
         "numberOf (d ''loseStreak'') > numberOf (d ''highestLoseStreak'')"
      using that by (auto simp: streakPayload_def fun_eq_iff)
    show ?thesis
      using Some pay1 pay2 pay3
      by (cases "numberOf (d ''winStreak'') > numberOf (d ''highestWinStreak'')";
          cases "numberOf (d ''loseStreak'') > numberOf (d ''highestLoseStreak'')")
         (simp_all add: Cons.IH promotion_def Let_def)
  qed
qed

lemma batchUpdateStreaks_promotions:
  "batchUpdateStreaks ok ids db =
     (if ok then commit (concat (map promotion (getAll db (map PlayerRef ids)))) db else db)"
proof (cases "concat (map promotion (getAll db (map PlayerRef ids))) = []")
  case True
  then show ?thesis
    by (simp add: batchUpdateStreaks_def streakLoop_promotions commit_def
        del: concat_eq_Nil_conv)
next
  case False
  then have "ids \<noteq> []" by (auto simp: getAll_def)
  with False show ?thesis
    by (simp add: batchUpdateStreaks_def streakLoop_promotions del: concat_eq_Nil_conv)
qed

lemma mergeInto_streakPayload_twice:
  "mergeInto (Some (mergeInto old (streakPayload d))) (streakPayload d) =
     mergeInto old (streakPayload d)"
  by (auto simp: mergeInto_def streakPayload_def fieldOf_def fun_eq_iff)

lemma commit_promotions_player:
  "commit (concat (map (\<lambda>q. promotion \<lparr>ref = PlayerRef q, snapData = db (PlayerRef q)\<rparr>) ps)) s
     (PlayerRef q) =
   (if q \<in> set ps \<and> promotion \<lparr>ref = PlayerRef q, snapData = db (PlayerRef q)\<rparr> \<noteq> []
    then Some (mergeInto (s (PlayerRef q)) (streakPayload (the (db (PlayerRef q)))))
    else s (PlayerRef q))"
proof (induction ps arbitrary: s)
  case Nil
  then show ?case by (simp add: commit_def)
next
  case (Cons p ps)
  have step: "commit (promotion \<lparr>ref = PlayerRef p, snapData = db (PlayerRef p)\<rparr>) s =
      (if promotion \<lparr>ref = PlayerRef p, snapData = db (PlayerRef p)\<rparr> \<noteq> []
       then s(PlayerRef p \<mapsto> mergeInto (s (PlayerRef p)) (streakPayload (the (db (PlayerRef p)))))
       else s)"
    by (auto simp: promotion_def commit_def split: option.splits)
  show ?case
    by (simp add: commit_append Cons.IH step mergeInto_streakPayload_twice)
qed

lemma commit_promotions_stats:
  "commit (concat (map (\<lambda>q. promotion \<lparr>ref = PlayerRef q, snapData = db (PlayerRef q)\<rparr>) ps)) s
     (StatsRef q t x) = s (StatsRef q t x)"
proof (induction ps arbitrary: s)
  case Nil
  then show ?case by (simp add: commit_def)
next
  case (Cons p ps)
  have step: "commit (promotion \<lparr>ref = PlayerRef p, snapData = db (PlayerRef p)\<rparr>) s
      (StatsRef q t x) = s (StatsRef q t x)"
    by (auto simp: promotion_def commit_def split: option.splits)
  show ?case
    by (simp add: commit_append Cons.IH step)
qed

lemma batchUpdateStreaks_player:
  "batchUpdateStreaks ok ids db (PlayerRef q) =
     (case db (PlayerRef q) of
        None \<Rightarrow> None
      | Some d \<Rightarrow> if ok \<and> q \<in> set ids then Some (mergeInto (Some d) (streakPayload d))
                  else Some d)"
proof -
  have same: "mergeInto (Some d) (streakPayload d) = d"
    if "\<not> (numberOf (d ''winStreak'') > numberOf (d ''highestWinStreak'')
          \<or> numberOf (d ''loseStreak'') > numberOf (d ''highestLoseStreak''))" for d
    using that by (auto simp: mergeInto_def streakPayload_def fieldOf_def fun_eq_iff)
  have "batchUpdateStreaks ok ids db (PlayerRef q) =
      (if ok \<and> q \<in> set ids
          \<and> promotion \<lparr>ref = PlayerRef q, snapData = db (PlayerRef q)\<rparr> \<noteq> []
       then Some (mergeInto (db (PlayerRef q)) (streakPayload (the (db (PlayerRef q)))))
       else db (PlayerRef q))"
    unfolding batchUpdateStreaks_promotions getAll_def map_map comp_def
    by (simp add: commit_promotions_player)
  then show ?thesis
    using same by (auto simp: promotion_def split: option.splits)
qed

lemma batchUpdateStreaks_stats:
  "batchUpdateStreaks ok ids db (StatsRef q t x) = db (StatsRef q t x)"
  unfolding batchUpdateStreaks_promotions getAll_def map_map comp_def
  by (simp add: commit_promotions_stats)

text \<open>
  C1. For a match with a match date (every stored match has one), committing the engine's
  writes with multiplier +1 and then, reading the resulting store, committing its writes
  with multiplier -1 leaves every counter field of every document of the store, lifetime
  or daily or weekly, numerically as it was; a field or a document that was absent counts
  as 0 (the documents created on the way stay, with counters 0). The streak fields are
  not among the counter fields. The two calls may read different clocks.
\<close>

theorem apply_then_reverse_restores_counters:
  assumes "matchDate E = Some d" "d \<noteq> []"
    and "s1 = commit (generateStats pf clk1 db E (Some 1)) db"
    and "s2 = commit (generateStats pf clk2 s1 E (Some (- 1))) s1"
  shows "\<forall>f \<in> set (lifetimeCounterFields @ bucketCounterFields).
           numberOf (fieldOf (s2 r) f) = numberOf (fieldOf (db r) f)"
proof
  fix f assume f: "f \<in> set (lifetimeCounterFields @ bucketCounterFields)"
  have per: "eventPeriods pf clk2 E = eventPeriods pf clk1 E"
    using assms(1,2) by (simp add: eventPeriods_dated)
  show "numberOf (fieldOf (s2 r) f) = numberOf (fieldOf (db r) f)"
  proof (cases r)
    case (PlayerRef q)
    show ?thesis
      unfolding PlayerRef assms(3,4)
      by (simp add: lifetime_after_commit [OF f] eventMultiplier_def algebra_simps)
  next
    case (StatsRef q t x)
    show ?thesis
    proof (cases "q \<in> set (homeTeamIds E @ awayTeamIds E) \<and> x = periodId t (eventPeriods pf clk1 E)")
      case True
      then have x: "x = periodId t (eventPeriods pf clk1 E)" by simp
      have one: "s1 (StatsRef q t x) = Some (bucketAfter pf clk1 db E (Some 1) q t)"
        unfolding assms(3) using True by (simp add: bucket_after_commit)
      have two: "s2 (StatsRef q t x) = Some (bucketAfter pf clk2 s1 E (Some (- 1)) q t)"
        unfolding assms(4) using True per by (simp add: bucket_after_commit)
      show ?thesis
        unfolding StatsRef two
        using one x per
        by (simp add: fieldOf_def bucketAfter_counter [OF f] eventMultiplier_def)
    next
      case False
      then show ?thesis
        unfolding StatsRef assms(3,4) using per
        by (auto simp: bucket_after_commit)
    qed
  qed
qed

theorem apply_then_reverse_restores_counters_witness:
  "numberOf (fieldOf
     (commit (generateStats utcHost clockB
                (commit (generateStats utcHost clockA sampleStore match_11_7 (Some 1)) sampleStore)
                match_11_7 (Some (- 1)))
        (commit (generateStats utcHost clockA sampleStore match_11_7 (Some 1)) sampleStore)
        (PlayerRef ''A''))
     ''totalWins'') = 2"
  using apply_then_reverse_restores_counters
    [where E = match_11_7 and d = "''2025-03-10T12:00:00.000Z''" and pf = utcHost
       and ?clk1.0 = clockA and ?clk2.0 = clockB and db = sampleStore and r = "PlayerRef ''A''",
     OF _ _ refl refl]
  by (simp add: match_11_7_def lifetimeCounterFields_def sampleStore_def numberOf_def fieldOf_def)

lemma sampleStore_invariant: "playersSatisfy streakInvariant sampleStore"
  by (auto simp: playersSatisfy_def sampleStore_def streakInvariant_def numberOf_def
      split: if_splits)

text \<open>
  C7. If every lifetime document of the store satisfies the streak invariant (a positive
  \<open>winStreak\<close> with \<open>loseStreak\<close> 0, and the converse), so does every lifetime document
  after any sequence of committed engine transactions, for any matches and multipliers;
  and a match with no decided outcome (\<open>toto\<close> neither 1 nor 2) sets \<open>winStreak\<close> and
  \<open>loseStreak\<close> of every participant to 0.
\<close>

theorem streak_invariant_preserved:
  assumes "playersSatisfy streakInvariant db"
  shows "playersSatisfy streakInvariant (applyEvents pf evs db) \<and>
    (toto m \<noteq> 1 \<and> toto m \<noteq> 2 \<and> p \<in> set (homeTeamIds m @ awayTeamIds m) \<longrightarrow>
       fieldOf (commit (generateStats pf clk db m opt) db (PlayerRef p)) ''winStreak''
         = Some (Num 0) \<and>
       fieldOf (commit (generateStats pf clk db m opt) db (PlayerRef p)) ''loseStreak''
         = Some (Num 0))"
proof (intro conjI impI)
  show "playersSatisfy streakInvariant (applyEvents pf evs db)"
    using assms by (rule applyEvents_invariant)
next
  assume a: "toto m \<noteq> 1 \<and> toto m \<noteq> 2 \<and> p \<in> set (homeTeamIds m @ awayTeamIds m)"
  then show "fieldOf (commit (generateStats pf clk db m opt) db (PlayerRef p)) ''winStreak''
         = Some (Num 0)"
    unfolding generateStats_writes
    by (intro commit_loop_lifetime_set) (simp_all add: lifetimeData_undecided)
next
  assume a: "toto m \<noteq> 1 \<and> toto m \<noteq> 2 \<and> p \<in> set (homeTeamIds m @ awayTeamIds m)"
  then show "fieldOf (commit (generateStats pf clk db m opt) db (PlayerRef p)) ''loseStreak''
         = Some (Num 0)"
    unfolding generateStats_writes
    by (intro commit_loop_lifetime_set) (simp_all add: lifetimeData_undecided)
qed

theorem streak_invariant_preserved_witness:
  "playersSatisfy streakInvariant
     (applyEvents utcHost [(clockA, match_11_7, Some 1), (clockB, match_11_7, Some (- 1))]
        sampleStore) \<and>
   fieldOf (commit (generateStats utcHost clockA sampleStore match_5_5 (Some 1)) sampleStore
      (PlayerRef ''A'')) ''winStreak'' = Some (Num 0) \<and>
   fieldOf (commit (generateStats utcHost clockA sampleStore match_5_5 (Some 1)) sampleStore
      (PlayerRef ''A'')) ''loseStreak'' = Some (Num 0)"
  using streak_invariant_preserved
    [OF sampleStore_invariant, of utcHost
       "[(clockA, match_11_7, Some 1), (clockB, match_11_7, Some (- 1))]" match_5_5 "''A''"
       clockA "Some 1"]
  by (simp add: match_5_5_def)

lemma writeRef_simps:
  "writeRef (WriteSet r d) = r" "writeRef (WriteSetMerge r data) = r"
  by (simp_all add: writeRef_def)

lemma writeRef_updateTimeBasedStatsDoc:
  "writeRef (updateTimeBasedStatsDoc r snap p tf pt inc ts) = r"
  by (simp add: updateTimeBasedStatsDoc_def writeRef_def split: option.splits)

lemma writeRef_loop:
  "StatsRef q t x \<in> writeRef ` set (forEachIndexed (playerWrites pf clk db m opt) i ps) \<longleftrightarrow>
     q \<in> set ps \<and> x = periodId t (eventPeriods pf clk m)"
proof (induction ps arbitrary: i)
  case Nil
  then show ?case by simp
next
  case (Cons p ps)
  have "StatsRef q t x \<in> writeRef ` set (playerWrites pf clk db m opt i p) \<longleftrightarrow>
      q = p \<and> x = periodId t (eventPeriods pf clk m)"
    by (cases t) (auto simp: playerWrites_def writeRef_updateTimeBasedStatsDoc writeRef_simps
        periodId_def)
  then show ?case by (auto simp: image_Un Cons.IH)
qed

text \<open>
  C10. Let the engine stage a write to a daily or weekly document. If the read phase found
  the document present, the committed document has every counter field equal to the
  prior value (0 if the field was absent) plus the increment and \<open>lastUpdatedAt\<close> equal
  to the call's timestamp, while \<open>firstActivityAt\<close>, \<open>playerId\<close>, \<open>timeframeId\<close> and
  \<open>periodType\<close> are as they were. If it was absent, the document is created from the
  increments, and \<open>firstActivityAt\<close> is stamped with the call's timestamp.
\<close>

theorem touched_bucket_is_merged:
  assumes "StatsRef p t x \<in> writeRef ` set (generateStats pf clk db m opt)"
    and "after = commit (generateStats pf clk db m opt) db (StatsRef p t x)"
    and "inc = calculateTimeBasedIncrements (entityMatchResult (nowISO clk) m p) m
                 (eventMultiplier opt)"
  shows "case db (StatsRef p t x) of
      Some existing \<Rightarrow>
        (\<forall>f \<in> set bucketCounterFields.
           fieldOf after f = Some (Num (numberOf (existing f) + incrementField inc f))) \<and>
        fieldOf after ''lastUpdatedAt'' = Some (Str (nowISO clk)) \<and>
        fieldOf after ''firstActivityAt'' = existing ''firstActivityAt'' \<and>
        fieldOf after ''playerId'' = existing ''playerId'' \<and>
        fieldOf after ''timeframeId'' = existing ''timeframeId'' \<and>
        fieldOf after ''periodType'' = existing ''periodType''
    | None \<Rightarrow>
        (\<forall>f \<in> set bucketCounterFields. fieldOf after f = Some (Num (incrementField inc f))) \<and>
        fieldOf after ''lastUpdatedAt'' = Some (Str (nowISO clk)) \<and>
        fieldOf after ''firstActivityAt'' = Some (Str (nowISO clk)) \<and>
        fieldOf after ''playerId'' = Some (Str p) \<and>
        fieldOf after ''timeframeId'' = Some (Str x) \<and>
        fieldOf after ''periodType'' = Some (Str (periodTypeName t))"
proof -
  from assms(1) have touched: "p \<in> set (homeTeamIds m @ awayTeamIds m)"
    "x = periodId t (eventPeriods pf clk m)"
    unfolding generateStats_writes writeRef_loop by simp_all
  have after: "after = Some (bucketAfter pf clk db m opt p t)"
    unfolding assms(2) using touched by (simp add: bucket_after_commit)
  show ?thesis
    unfolding after bucketAfter_def touched(2) [symmetric] assms(3) [symmetric]
    by (cases "db (StatsRef p t x)")
       (auto simp: updateTimeBasedStatsDoc_def writtenDoc_def fieldOf_def
          bucketCounterFields_def incrementField_def)
qed

theorem touched_bucket_is_merged_witness:
  "fieldOf (commit (generateStats utcHost clockA sampleStore match_11_7 (Some 1)) sampleStore
      (StatsRef ''A'' Daily ''2025-03-10'')) ''wins'' = Some (Num 3) \<and>
   fieldOf (commit (generateStats utcHost clockA sampleStore match_11_7 (Some 1)) sampleStore
      (StatsRef ''A'' Daily ''2025-03-10'')) ''firstActivityAt''
     = Some (Str ''2025-03-10T08:00:00.000Z'') \<and>
   fieldOf (commit (generateStats utcHost clockA sampleStore match_11_7 (Some 1)) sampleStore
      (StatsRef ''A'' Daily ''2025-03-10'')) ''lastUpdatedAt''
     = Some (Str ''2025-03-10T12:00:05.000Z'')"
proof -
  have per: "periodId Daily (eventPeriods utcHost clockA match_11_7) = ''2025-03-10''"
    by code_simp
  have touched: "StatsRef ''A'' Daily ''2025-03-10''
      \<in> writeRef ` set (generateStats utcHost clockA sampleStore match_11_7 (Some 1))"
  proof -
    have "''A'' \<in> set (homeTeamIds match_11_7 @ awayTeamIds match_11_7)"
      by (simp add: match_11_7_def)
    then show ?thesis
      unfolding generateStats_writes writeRef_loop using per by simp
  qed
  show ?thesis
    using touched_bucket_is_merged [OF touched refl refl]
    by (simp add: sampleStore_def bucketCounterFields_def incrementField_def
        calculateTimeBasedIncrements_def entityMatchResult_def winners_def losers_def
        match_11_7_def clockA_def eventMultiplier_def numberOf_def Let_def)
qed

lemma streakPayload_settled:
  "streakPayload (mergeInto (Some d) (streakPayload d)) = Map.empty"
  by (auto simp: streakPayload_def mergeInto_def fieldOf_def numberOf_def fun_eq_iff)

lemma mergeInto_empty: "mergeInto (Some d) Map.empty = d"
  by (simp add: mergeInto_def fieldOf_def)

lemma batchUpdateStreaks_monotone:
  "numberOf (fieldOf (db (PlayerRef q)) ''highestWinStreak'')
     \<le> numberOf (fieldOf (batchUpdateStreaks ok ids db (PlayerRef q)) ''highestWinStreak'')"
  "numberOf (fieldOf (db (PlayerRef q)) ''highestLoseStreak'')
     \<le> numberOf (fieldOf (batchUpdateStreaks ok ids db (PlayerRef q)) ''highestLoseStreak'')"
  by (auto simp: batchUpdateStreaks_player fieldOf_def mergeInto_def streakPayload_def
      numberOf_def split: option.splits)

lemma promoteAll_monotone:
  "numberOf (fieldOf (db (PlayerRef q)) ''highestWinStreak'')
     \<le> numberOf (fieldOf (promoteAll calls db (PlayerRef q)) ''highestWinStreak'') \<and>
   numberOf (fieldOf (db (PlayerRef q)) ''highestLoseStreak'')
     \<le> numberOf (fieldOf (promoteAll calls db (PlayerRef q)) ''highestLoseStreak'')"
proof (induction calls arbitrary: db)
  case Nil
  then show ?case by simp
next
  case (Cons c calls)
  obtain ok ids where c: "c = (ok, ids)" by (cases c) auto
  show ?case
    unfolding c
    using Cons.IH [of "batchUpdateStreaks ok ids db"]
      batchUpdateStreaks_monotone [of db q ok ids]
    by auto
qed

lemma batchUpdateStreaks_again:
  "batchUpdateStreaks ok ids (batchUpdateStreaks True ids db) = batchUpdateStreaks True ids db"
proof
  fix r
  show "batchUpdateStreaks ok ids (batchUpdateStreaks True ids db) r
      = batchUpdateStreaks True ids db r"
  proof (cases r)
    case (PlayerRef q)
    show ?thesis
      unfolding PlayerRef
      by (simp add: batchUpdateStreaks_player streakPayload_settled mergeInto_empty
          split: option.splits)
  next
    case (StatsRef q t x)
    show ?thesis unfolding StatsRef by (simp add: batchUpdateStreaks_stats)
  qed
qed

text \<open>
  C9. For every store, player and sequence of calls of the streak maintainer (any player
  lists, commits succeeding or failing), \<open>highestWinStreak\<close> and \<open>highestLoseStreak\<close>
  never decrease. A call whose commit succeeds sets a maximum of a listed player to the
  current streak exactly when the current streak exceeds it, and leaves it as it is
  otherwise; a repeated call leaves the store unchanged.
\<close>

theorem maxima_only_rise:
  "numberOf (fieldOf (db (PlayerRef q)) ''highestWinStreak'')
     \<le> numberOf (fieldOf (promoteAll calls db (PlayerRef q)) ''highestWinStreak'') \<and>
   numberOf (fieldOf (db (PlayerRef q)) ''highestLoseStreak'')
     \<le> numberOf (fieldOf (promoteAll calls db (PlayerRef q)) ''highestLoseStreak'') \<and>
   (db (PlayerRef q) = Some d \<and> q \<in> set ids \<longrightarrow>
      fieldOf (batchUpdateStreaks True ids db (PlayerRef q)) ''highestWinStreak'' =
        (if numberOf (d ''winStreak'') > numberOf (d ''highestWinStreak'')
         then Some (Num (numberOf (d ''winStreak''))) else d ''highestWinStreak'') \<and>
      fieldOf (batchUpdateStreaks True ids db (PlayerRef q)) ''highestLoseStreak'' =
        (if numberOf (d ''loseStreak'') > numberOf (d ''highestLoseStreak'')
         then Some (Num (numberOf (d ''loseStreak''))) else d ''highestLoseStreak'')) \<and>
   batchUpdateStreaks ok ids (batchUpdateStreaks True ids db) = batchUpdateStreaks True ids db"
  using promoteAll_monotone [of db q calls] batchUpdateStreaks_again [of ok ids db]
  by (auto simp: batchUpdateStreaks_player fieldOf_def mergeInto_def streakPayload_def)

theorem maxima_only_rise_witness:
  "fieldOf (batchUpdateStreaks True [''A'', ''B''] sampleStore (PlayerRef ''A''))
     ''highestWinStreak'' = Some (Num 2) \<and>
   batchUpdateStreaks False [''A'', ''B''] (batchUpdateStreaks True [''A'', ''B''] sampleStore)
     = batchUpdateStreaks True [''A'', ''B''] sampleStore"
  using maxima_only_rise
    [of sampleStore "''A''" "[(True, [''A'', ''B''])]"
        "the (sampleStore (PlayerRef ''A''))" "[''A'', ''B'']" False]
  by (simp add: sampleStore_def numberOf_def)

section \<open>Properties of the backfill job\<close>

lemma getTimePeriodIds_clock:
  "s \<noteq> [] \<Longrightarrow> getTimePeriodIds pf c1 (Some s) = getTimePeriodIds pf c2 (Some s)"
  by (simp add: getTimePeriodIds_def)

lemma processMatch_clock:
  "processMatch pf c1 m aggs = processMatch pf c2 m aggs"
proof (cases "matchDate m")
  case None
  then show ?thesis by (simp add: processMatch_def)
next
  case (Some ts)
  show ?thesis
  proof (cases "ts = []")
    case True
    with Some show ?thesis by (simp add: processMatch_def)
  next
    case False
    with Some show ?thesis
      by (simp add: processMatch_def getTimePeriodIds_clock [OF False, of pf c1 c2])
  qed
qed

lemma fetchLoop_fold:
  "fetchLoop pf clock remaining (aggs, n) =
     (fold (processMatch pf clock) remaining aggs, n + length remaining)"
proof (induction pf clock remaining "(aggs, n)" arbitrary: aggs n rule: fetchLoop.induct)
  case (1 pf clock remaining aggs n)
  show ?case
  proof (cases "remaining = []")
    case True
    then show ?thesis by (subst fetchLoop.simps) simp
  next
    case False
    then have page: "take MATCH_FETCH_LIMIT remaining \<noteq> []"
      by (simp add: MATCH_FETCH_LIMIT_def)
    have eq1: "fold (processMatch pf clock) (drop MATCH_FETCH_LIMIT remaining)
          (fold (processMatch pf clock) (take MATCH_FETCH_LIMIT remaining) aggs) =
        fold (processMatch pf clock) remaining aggs"
      by (metis append_take_drop_id comp_apply fold_append)
    have eq2: "n + length (take MATCH_FETCH_LIMIT remaining)
          + length (drop MATCH_FETCH_LIMIT remaining) = n + length remaining"
      by (metis add.assoc append_take_drop_id length_append)
    have "fetchLoop pf clock remaining (aggs, n) =
        fetchLoop pf clock (drop MATCH_FETCH_LIMIT remaining)
          (fold (processMatch pf clock) (take MATCH_FETCH_LIMIT remaining) aggs,
           n + length (take MATCH_FETCH_LIMIT remaining))"
      by (subst fetchLoop.simps) (simp only: Let_def page if_False)
    also have "\<dots> = (fold (processMatch pf clock) (drop MATCH_FETCH_LIMIT remaining)
          (fold (processMatch pf clock) (take MATCH_FETCH_LIMIT remaining) aggs),
        n + length (take MATCH_FETCH_LIMIT remaining)
          + length (drop MATCH_FETCH_LIMIT remaining))"
      by (rule "1.hyps" [OF refl page])
    finally show ?thesis by (simp only: eq1 eq2)
  qed
qed

lemma list_all_objectSet:
  "list_all P al \<Longrightarrow> P (k, v) \<Longrightarrow> list_all P (objectSet k v al)"
  by (induction al) auto

lemma list_all_map_of:
  "list_all P al \<Longrightarrow> map_of al k = Some v \<Longrightarrow> P (k, v)"
  by (induction al) (auto split: if_splits)

lemma aggregateIncrements_stamped:
  assumes "ts \<noteq> []"
  shows "stamped (aggregateIncrements pf existing inc ts)"
proof -
  have first: "textOf (aggregateIncrements pf existing inc ts ''firstActivityAt'') \<noteq> []"
    using assms by (simp add: aggregateIncrements_def textOf_def Let_def)
  have last: "textOf (aggregateIncrements pf existing inc ts ''lastUpdatedAt'') \<noteq> []"
  proof (cases "ts > textOf (existing ''lastUpdatedAt'')")
    case True
    then show ?thesis using assms by (simp add: aggregateIncrements_def textOf_def Let_def)
  next
    case False
    have "[] < ts" using assms by (cases ts) simp_all
    with False have "textOf (existing ''lastUpdatedAt'') \<noteq> []"
      by (cases "textOf (existing ''lastUpdatedAt'')") simp_all
    with False show ?thesis by (simp add: aggregateIncrements_def Let_def)
  qed
  from first last show ?thesis by (simp add: stamped_def)
qed

lemma accumulate_allStamped:
  assumes "ts \<noteq> []" "allStamped aggs"
  shows "allStamped (accumulate pf tf p inc ts aggs)"
proof -
  define aggs1 where "aggs1 = (if map_of aggs tf = None then objectSet tf [] aggs else aggs)"
  define players where "players = (case map_of aggs1 tf of None \<Rightarrow> [] | Some ps \<Rightarrow> ps)"
  define existing where
    "existing = (case map_of players p of None \<Rightarrow> Map.empty | Some e \<Rightarrow> e)"
  have a1: "allStamped aggs1"
    using assms(2) unfolding aggs1_def allStamped_def
    by (simp add: list_all_objectSet playersStamped_def)
  have pl: "playersStamped players"
  proof (cases "map_of aggs1 tf")
    case None
    then show ?thesis by (simp add: players_def playersStamped_def)
  next
    case (Some ps)
    from list_all_map_of [OF a1 [unfolded allStamped_def] Some]
    show ?thesis using Some by (simp add: players_def)
  qed
  have new: "stamped (aggregateIncrements pf existing inc ts)"
    using assms(1) by (rule aggregateIncrements_stamped)
  have pl': "playersStamped (objectSet p (aggregateIncrements pf existing inc ts) players)"
    using pl new unfolding playersStamped_def by (simp add: list_all_objectSet)
  have "accumulate pf tf p inc ts aggs =
      objectSet tf (objectSet p (aggregateIncrements pf existing inc ts) players) aggs1"
    by (simp add: accumulate_def Let_def aggs1_def players_def existing_def)
  then show ?thesis
    using a1 pl' unfolding allStamped_def by (simp add: list_all_objectSet)
qed

lemma processMatch_allStamped:
  assumes "allStamped (fst aggs)" "allStamped (snd aggs)"
  shows "allStamped (fst (processMatch pf clock m aggs)) \<and>
         allStamped (snd (processMatch pf clock m aggs))"
proof (cases "matchDate m")
  case None
  then show ?thesis using assms by (simp add: processMatch_def)
next
  case (Some ts)
  show ?thesis
  proof (cases "ts = []")
    case True
    with Some show ?thesis using assms by (simp add: processMatch_def)
  next
    case False
    have step: "allStamped (fst (fold
          (\<lambda>playerId (d, w). (accumulate pf tfd playerId (g playerId) ts d,
                               accumulate pf tfw playerId (g playerId) ts w))
          ps acc)) \<and>
        allStamped (snd (fold
          (\<lambda>playerId (d, w). (accumulate pf tfd playerId (g playerId) ts d,
                               accumulate pf tfw playerId (g playerId) ts w))
          ps acc))"
      if "allStamped (fst acc)" "allStamped (snd acc)" for ps acc tfd tfw g
      using that
    proof (induction ps arbitrary: acc)
      case Nil
      then show ?case by simp
    next
      case (Cons q ps)
      obtain d w where acc: "acc = (d, w)" by (cases acc)
      show ?case
        unfolding acc using Cons.prems
        by (simp add: acc Cons.IH accumulate_allStamped [OF False])
    qed
    define g where "g = (\<lambda>playerId. calculateTimeBasedIncrements
        \<lparr>entityMatchDate = ts, entityType = PLAYER, entityKey = playerId,
         didWin = (playerId \<in> set (if toto m = 1 then homeTeamIds m
                                     else if toto m = 2 then awayTeamIds m else [])),
         didLose = (playerId \<in> set (if toto m = 1 then awayTeamIds m
                                      else if toto m = 2 then homeTeamIds m else [])),
         hasHumiliation = checkFlawlessVictory (finalScore m),
         hasSuckerPunch = checkSuckerPunch (finalScore m)\<rparr> m 1)"
    have pm: "processMatch pf clock m aggs =
        fold (\<lambda>playerId (d, w).
                (accumulate pf (daily (getTimePeriodIds pf clock (Some ts))) playerId
                   (g playerId) ts d,
                 accumulate pf (weekly (getTimePeriodIds pf clock (Some ts))) playerId
                   (g playerId) ts w))
          (homeTeamIds m @ awayTeamIds m) aggs"
      unfolding processMatch_def Let_def g_def using Some False by simp
    show ?thesis unfolding pm by (rule step [OF assms])
  qed
qed

lemma fold_processMatch_allStamped:
  "allStamped (fst aggs) \<Longrightarrow> allStamped (snd aggs) \<Longrightarrow>
   allStamped (fst (fold (processMatch pf clock) ms aggs)) \<and>
   allStamped (snd (fold (processMatch pf clock) ms aggs))"
proof (induction ms arbitrary: aggs)
  case Nil
  then show ?case by simp
next
  case (Cons m ms)
  from processMatch_allStamped [OF Cons.prems, of pf clock m]
  show ?case by (simp add: Cons.IH)
qed

lemma commit_Nil: "commit [] db = db"
  by (simp add: commit_def)

lemma commitBatchIfNeeded_flushed:
  "counted st \<Longrightarrow>
   (case commitBatchIfNeeded st of (db, batch, n, tot) \<Rightarrow> (db, tot)) = flushed st"
  by (cases st) (auto simp: commitBatchIfNeeded_def flushed_def counted_def commit_Nil)

lemma writeAggregatesToFirestore_stageWrite:
  "writeAggregatesToFirestore db aggs pt now =
    (case commitBatchIfNeeded
            (fold (\<lambda>(tf, players) st. fold (stageWrite pt tf now) players st) aggs
               (db, [], 0, 0)) of
       (db, currentBatch, batchOpsCount, totalWrites) \<Rightarrow> (db, totalWrites))"
  unfolding writeAggregatesToFirestore_def stageWrite_def ..

lemma stage_step:
  assumes "counted st"
  shows "counted (stageWrite pt tf now (p, d) st) \<and>
         flushed (stageWrite pt tf now (p, d) st) =
           (commit [WriteSet (StatsRef p pt tf) (finalDoc p tf pt d now)] (fst (flushed st)),
            snd (flushed st) + 1)"
  using assms
  by (cases st)
     (auto simp: stageWrite_def counted_def flushed_def commitBatchIfNeeded_def Let_def
        commit_append commit_Nil)

lemma stage_players:
  assumes "counted st"
  shows "counted (fold (stageWrite pt tf now) players st) \<and>
         flushed (fold (stageWrite pt tf now) players st) =
           (commit (map (\<lambda>(playerId, statsData).
                       WriteSet (StatsRef playerId pt tf) (finalDoc playerId tf pt statsData now))
                     players)
              (fst (flushed st)),
            snd (flushed st) + length players)"
  using assms
proof (induction players arbitrary: st)
  case Nil
  then show ?case by (simp add: commit_Nil)
next
  case (Cons x players)
  obtain p d where x: "x = (p, d)" by (cases x)
  from stage_step [OF Cons.prems, of pt tf now p d]
  have c: "counted (stageWrite pt tf now (p, d) st)"
    and f: "flushed (stageWrite pt tf now (p, d) st) =
           (commit [WriteSet (StatsRef p pt tf) (finalDoc p tf pt d now)] (fst (flushed st)),
            snd (flushed st) + 1)"
    by simp_all
  have "flushed (fold (stageWrite pt tf now) (x # players) st) =
      flushed (fold (stageWrite pt tf now) players (stageWrite pt tf now (p, d) st))"
    by (simp add: x)
  also have "\<dots> =
      (commit (map (\<lambda>(playerId, statsData).
                  WriteSet (StatsRef playerId pt tf) (finalDoc playerId tf pt statsData now))
                players)
         (fst (flushed (stageWrite pt tf now (p, d) st))),
       snd (flushed (stageWrite pt tf now (p, d) st)) + length players)"
    by (rule conjunct2 [OF Cons.IH [OF c]])
  also have "\<dots> =
      (commit (map (\<lambda>(playerId, statsData).
                  WriteSet (StatsRef playerId pt tf) (finalDoc playerId tf pt statsData now))
                (x # players))
         (fst (flushed st)),
       snd (flushed st) + length (x # players))"
    unfolding f x by (simp add: commit_def)
  finally have "flushed (fold (stageWrite pt tf now) (x # players) st) =
      (commit (map (\<lambda>(playerId, statsData).
                  WriteSet (StatsRef playerId pt tf) (finalDoc playerId tf pt statsData now))
                (x # players))
         (fst (flushed st)),
       snd (flushed st) + length (x # players))" .
  moreover have "counted (fold (stageWrite pt tf now) (x # players) st)"
    using conjunct1 [OF Cons.IH [OF c]] by (simp add: x)
  ultimately show ?case by blast
qed

lemma stage_all:
  assumes "counted st"
  shows "counted (fold (\<lambda>(tf, players) st. fold (stageWrite pt tf now) players st) aggs st) \<and>
         flushed (fold (\<lambda>(tf, players) st. fold (stageWrite pt tf now) players st) aggs st) =
           (commit (stagedWrites aggs pt now) (fst (flushed st)),
            snd (flushed st) + length (stagedWrites aggs pt now))"
  using assms
proof (induction aggs arbitrary: st)
  case Nil
  then show ?case by (simp add: stagedWrites_def commit_Nil)
next
  case (Cons x aggs)
  obtain tf players where x: "x = (tf, players)" by (cases x)
  from stage_players [OF Cons.prems, of pt tf now players]
  have c: "counted (fold (stageWrite pt tf now) players st)"
    and f: "flushed (fold (stageWrite pt tf now) players st) =
           (commit (map (\<lambda>(playerId, statsData).
                       WriteSet (StatsRef playerId pt tf) (finalDoc playerId tf pt statsData now))
                     players)
              (fst (flushed st)),
            snd (flushed st) + length players)"
    by simp_all
  have "flushed (fold (\<lambda>(tf, players) st. fold (stageWrite pt tf now) players st)
          (x # aggs) st) =
      flushed (fold (\<lambda>(tf, players) st. fold (stageWrite pt tf now) players st) aggs
          (fold (stageWrite pt tf now) players st))"
    by (simp add: x)
  also have "\<dots> =
      (commit (stagedWrites aggs pt now) (fst (flushed (fold (stageWrite pt tf now) players st))),
       snd (flushed (fold (stageWrite pt tf now) players st))
         + length (stagedWrites aggs pt now))"
    by (rule conjunct2 [OF Cons.IH [OF c]])
  also have "\<dots> =
      (commit (stagedWrites (x # aggs) pt now) (fst (flushed st)),
       snd (flushed st) + length (stagedWrites (x # aggs) pt now))"
    unfolding f x by (simp add: stagedWrites_def commit_append)
  finally have "flushed (fold (\<lambda>(tf, players) st. fold (stageWrite pt tf now) players st)
          (x # aggs) st) =
      (commit (stagedWrites (x # aggs) pt now) (fst (flushed st)),
       snd (flushed st) + length (stagedWrites (x # aggs) pt now))" .
  moreover have "counted (fold (\<lambda>(tf, players) st. fold (stageWrite pt tf now) players st)
      (x # aggs) st)"
    using conjunct1 [OF Cons.IH [OF c]] by (simp add: x)
  ultimately show ?case by blast
qed

lemma writeAggregatesToFirestore_commit:
  "writeAggregatesToFirestore db aggs pt now =
     (commit (stagedWrites aggs pt now) db, length (stagedWrites aggs pt now))"
proof -
  have c0: "counted (db, [], 0, 0)" by (simp add: counted_def)
  have f0: "flushed (db, [], 0, 0) = (db, 0)" by (simp add: flushed_def commit_Nil)
  from stage_all [OF c0, of pt now aggs]
  show ?thesis
    unfolding writeAggregatesToFirestore_stageWrite
    by (simp add: commitBatchIfNeeded_flushed f0)
qed

lemma finalDoc_stamped:
  "stamped d \<Longrightarrow> finalDoc p tf pt d now1 = finalDoc p tf pt d now2"
  by (simp add: finalDoc_def stamped_def)

lemma stagedWrites_now:
  assumes "allStamped aggs"
  shows "stagedWrites aggs pt now1 = stagedWrites aggs pt now2"
proof -
  have inner: "map (\<lambda>(playerId, statsData).
                  WriteSet (StatsRef playerId pt tf) (finalDoc playerId tf pt statsData now1))
                players =
        map (\<lambda>(playerId, statsData).
                  WriteSet (StatsRef playerId pt tf) (finalDoc playerId tf pt statsData now2))
                players"
    if "playersStamped players" for tf players
    using that unfolding playersStamped_def
    by (induction players) (auto simp: finalDoc_stamped [of _ _ _ _ now1 now2])
  show ?thesis
    using assms unfolding allStamped_def stagedWrites_def
    by (induction aggs) (auto simp: inner)
qed

lemma fold_processMatch_clock:
  "fold (processMatch pf c1) ms aggs = fold (processMatch pf c2) ms aggs"
  by (induction ms arbitrary: aggs) (simp_all add: processMatch_clock [of pf c1 _ _ c2])

lemma allStamped_Nil: "allStamped []"
  by (simp add: allStamped_def)

lemma backfillTimeStats_commit:
  "backfillTimeStats pf clock now matches db =
     (commit (backfillWrites pf matches) db,
      length matches,
      length (stagedWrites (fst (fold (processMatch pf 0) matches ([], []))) Daily []),
      length (stagedWrites (snd (fold (processMatch pf 0) matches ([], []))) Weekly []))"
proof -
  obtain d w where dw: "fold (processMatch pf 0) matches ([], []) = (d, w)"
    by (cases "fold (processMatch pf 0) matches ([], [])")
  have st: "allStamped d" "allStamped w"
    using fold_processMatch_allStamped [of "([], [])" pf 0 matches] dw
    by (simp_all add: allStamped_Nil)
  have fl: "fetchLoop pf clock matches (([], []), 0) = ((d, w), length matches)"
    by (simp add: fetchLoop_fold fold_processMatch_clock [of pf clock matches _ 0] dw)
  show ?thesis
    unfolding backfillTimeStats_def fl backfillWrites_def dw
    by (simp add: writeAggregatesToFirestore_commit commit_append
        stagedWrites_now [OF st(1), of Daily now "[]"]
        stagedWrites_now [OF st(2), of Weekly now "[]"])
qed

lemma commit_onlySets:
  "onlySets ws \<Longrightarrow> commit ws (db ++ m) = db ++ commit ws m"
proof (induction ws arbitrary: m)
  case Nil
  then show ?case by (simp add: commit_def)
next
  case (Cons w ws)
  then obtain r d where w: "w = WriteSet r d" and rest: "onlySets ws"
    by (cases w) (auto simp: onlySets_def)
  have "commit (w # ws) (db ++ m) = commit ws (db ++ m(r \<mapsto> d))"
    by (simp add: commit_def w)
  also have "\<dots> = db ++ commit ws (m(r \<mapsto> d))"
    by (rule Cons.IH [OF rest])
  also have "commit ws (m(r \<mapsto> d)) = commit (w # ws) m"
    by (simp add: commit_def w)
  finally show ?case .
qed

lemma onlySets_stagedWrites: "onlySets (stagedWrites aggs pt now)"
proof -
  have inner: "onlySets (map (\<lambda>(playerId, statsData).
        WriteSet (StatsRef playerId pt tf) (finalDoc playerId tf pt statsData now)) players)"
    for tf players
    by (induction players) (auto simp: onlySets_def)
  show ?thesis
    unfolding stagedWrites_def
    using inner by (induction aggs) (auto simp: onlySets_def)
qed

lemma onlySets_backfillWrites: "onlySets (backfillWrites pf matches)"
  using onlySets_stagedWrites
  by (simp add: backfillWrites_def onlySets_def)

lemma backfill_store:
  "fst (backfillTimeStats pf clock now matches db) =
     db ++ commit (backfillWrites pf matches) Map.empty"
  using commit_onlySets [OF onlySets_backfillWrites, of pf matches db Map.empty]
  by (simp add: backfillTimeStats_commit)

text \<open>
  C8. A backfill over a list of matches, run on the store an earlier backfill over the
  same list left, at any other time, returns that store and the same counts: it writes
  the same documents again. And whatever the stores two backfills over the same list
  start from, every document of the store is either written by both with the same
  content, or left by both as it was: what is written depends on the matches alone, not
  on the documents found, nor on the clock.
\<close>

theorem backfill_rerun_writes_same_documents:
  "backfillTimeStats pf clock2 now2 matches (fst (backfillTimeStats pf clock1 now1 matches db))
     = backfillTimeStats pf clock1 now1 matches db \<and>
   (fst (backfillTimeStats pf clock1 now1 matches db) r
      = fst (backfillTimeStats pf clock2 now2 matches db') r \<or>
    fst (backfillTimeStats pf clock1 now1 matches db) r = db r \<and>
    fst (backfillTimeStats pf clock2 now2 matches db') r = db' r)"
proof
  have "fst (backfillTimeStats pf clock2 now2 matches
               (fst (backfillTimeStats pf clock1 now1 matches db)))
      = fst (backfillTimeStats pf clock1 now1 matches db)"
    unfolding backfill_store by (simp add: fun_eq_iff map_add_def split: option.splits)
  moreover have "snd (backfillTimeStats pf clock2 now2 matches
               (fst (backfillTimeStats pf clock1 now1 matches db)))
      = snd (backfillTimeStats pf clock1 now1 matches db)"
    by (simp add: backfillTimeStats_commit)
  ultimately show "backfillTimeStats pf clock2 now2 matches
      (fst (backfillTimeStats pf clock1 now1 matches db))
     = backfillTimeStats pf clock1 now1 matches db"
    by (rule prod_eqI)
next
  show "fst (backfillTimeStats pf clock1 now1 matches db) r
      = fst (backfillTimeStats pf clock2 now2 matches db') r \<or>
    fst (backfillTimeStats pf clock1 now1 matches db) r = db r \<and>
    fst (backfillTimeStats pf clock2 now2 matches db') r = db' r"
    unfolding backfill_store
    by (cases "commit (backfillWrites pf matches) Map.empty r") (simp_all add: map_add_def)
qed

theorem backfill_rerun_writes_same_documents_witness:
  "backfillTimeStats utcHost 1741683600000 ''2025-03-11T09:00:00.000Z'' [match_11_7, match_5_5]
     (fst (backfillTimeStats utcHost 1741608005000 ''2025-03-10T12:00:05.000Z''
             [match_11_7, match_5_5] sampleStore))
   = backfillTimeStats utcHost 1741608005000 ''2025-03-10T12:00:05.000Z''
       [match_11_7, match_5_5] sampleStore"
  using backfill_rerun_writes_same_documents
    [of utcHost 1741683600000 "''2025-03-11T09:00:00.000Z''" "[match_11_7, match_5_5]"
        1741608005000 "''2025-03-10T12:00:05.000Z''" sampleStore]
  by blast

section \<open>The period resolver on a year boundary\<close>

text \<open>
  The calendar of the model at known dates: day 0 is Thursday 1970-01-01, and
  2024-12-30, day 20087, is a Monday.
\<close>

lemma calendar_samples:
  "civilFromDays 0 = (1970, 1, 1) \<and> WeekDay 0 = 4 \<and>
   daysFromCivil 2024 12 30 = 20087 \<and> civilFromDays 20087 = (2024, 12, 30) \<and>
   WeekDay 1735560000000 = 1 \<and>
   daily (getTimePeriodIds utcHost 0 (Some ''2024-12-30T12:00:00.000Z'')) = ''2024-12-30''"
  by code_simp

text \<open>
  C3 does not hold of the code. Monday 2024-12-30 lies in the ISO week 2025-W01, whose
  Thursday is 2025-01-02; \<open>getTimePeriodIds\<close> puts the ISO week number 01 under the
  timestamp's own year and returns 2024-W01, which is also what it returns for Monday
  2024-01-01.
\<close>

theorem weekly_id_on_year_boundary:
  "weekly (getTimePeriodIds utcHost 0 (Some ''2024-12-30T12:00:00.000Z'')) = ''2024-W01'' \<and>
   isoWeekId 1735560000000 = ''2025-W01'' \<and>
   weekly (getTimePeriodIds utcHost 1704110400000 None) = ''2024-W01''"
  by code_simp

end
